theory Spec2Isabelle
  imports Main "HOL-Library.AList" "HOL-Library.Sublist"
begin

section \<open>The document tree\<close>

text \<open>
  The script \<^verbatim>\<open>src/scripts/assets-process.ts\<close> loads every HTML file with
  \<^verbatim>\<open>cheerio.load\<close>, edits the resulting tree through selectors, and writes the
  serialised tree back.  The tree is modelled as cheerio holds it: an element has a tag
  name, an attribute table and a list of children; text and comments are leaves.

  The attribute table is a JavaScript object: a key occurs once, \<^verbatim>\<open>attr(k, v)\<close>
  overwrites the value of a key in place or adds the key at the end, and
  \<^verbatim>\<open>removeAttr(k)\<close> deletes the key.  It is an association list read with
  \<^const>\<open>map_of\<close> and changed with \<^const>\<open>AList.update\<close> and \<^const>\<open>AList.delete\<close>.
\<close>

type_synonym attribs = "(string \<times> string) list"

datatype node =
    Element string attribs "node list"
  | Text string
  | Comment string

text \<open>
  \<^verbatim>\<open>cheerio.load\<close> parses in document mode: the result always has one \<^verbatim>\<open>html\<close>
  element with one \<^verbatim>\<open>head\<close> and one \<^verbatim>\<open>body\<close> element, and no other element is
  named \<^verbatim>\<open>head\<close> or \<^verbatim>\<open>body\<close>.  A document is therefore the pair of the children of
  its head and the children of its body (frameset documents, which have no body, are
  outside the model).  Nothing in the script reads or changes the attributes of the
  \<^verbatim>\<open>html\<close>, \<^verbatim>\<open>head\<close> and \<^verbatim>\<open>body\<close> elements themselves, nor the doctype.
\<close>

record document =
  head :: "node list"
  body :: "node list"

fun tag_is :: "string \<Rightarrow> node \<Rightarrow> bool" where
  "tag_is t (Element u a cs) = (u = t)"
| "tag_is t (Text s) = False"
| "tag_is t (Comment s) = False"

fun attr :: "node \<Rightarrow> string \<Rightarrow> string option" where
  "attr (Element t a cs) k = map_of a k"
| "attr (Text s) k = None"
| "attr (Comment s) k = None"

fun attribs_of :: "node \<Rightarrow> attribs" where
  "attribs_of (Element t a cs) = a"
| "attribs_of (Text s) = []"
| "attribs_of (Comment s) = []"

fun children :: "node \<Rightarrow> node list" where
  "children (Element t a cs) = cs"
| "children (Text s) = []"
| "children (Comment s) = []"

text \<open>
  \<^verbatim>\<open>$(selector)\<close> over a list of sibling trees: every element, at any depth, that
  satisfies the selector, in document order (an element before its descendants).
\<close>

fun select :: "(node \<Rightarrow> bool) \<Rightarrow> node list \<Rightarrow> node list" where
  "select P [] = []"
| "select P (Element t a cs # ns) =
     (if P (Element t a cs) then [Element t a cs] else []) @ select P cs @ select P ns"
| "select P (Text s # ns) = select P ns"
| "select P (Comment s # ns) = select P ns"

text \<open>The whole document, as a selector without a context element sees it.\<close>

definition nodes :: "document \<Rightarrow> node list" where
  "nodes d = head d @ body d"

section \<open>Script relocation\<close>

text \<open>
  \<^verbatim>\<open>moveScriptsToBodyBottom\<close>.  \<^verbatim>\<open>$("head script")\<close> is every script element
  below the head, at any depth.  \<^verbatim>\<open>headScripts.remove()\<close> detaches each of them from
  its parent, so the head loses every script element (\<open>remove_scripts\<close>), and a selected
  script that stood inside another selected script is taken out of that one too
  (\<open>detached\<close>).  The loop then appends the detached elements to the body in the order
  of the selection.
\<close>

fun remove_scripts :: "node list \<Rightarrow> node list" where
  "remove_scripts [] = []"
| "remove_scripts (Element t a cs # ns) =
     (if t = ''script'' then remove_scripts ns
      else Element t a (remove_scripts cs) # remove_scripts ns)"
| "remove_scripts (Text s # ns) = Text s # remove_scripts ns"
| "remove_scripts (Comment s # ns) = Comment s # remove_scripts ns"

fun detached :: "node \<Rightarrow> node" where
  "detached (Element t a cs) = Element t a (remove_scripts cs)"
| "detached (Text s) = Text s"
| "detached (Comment s) = Comment s"

definition moveScriptsToBodyBottom :: "document \<Rightarrow> document" where
  "moveScriptsToBodyBottom d =
     (let headScripts = select (tag_is ''script'') (head d) in
      if length headScripts = 0 then d
      else d\<lparr>head := remove_scripts (head d),
             body := body d @ map detached headScripts\<rparr>)"

section \<open>Preload normalisation\<close>

text \<open>
  The first edit of \<^verbatim>\<open>processHtmlFile\<close>:
  \<^verbatim>\<open>$('link[rel="preload"]').each(...)\<close>.  In an HTML document cheerio's selector
  engine compares the value of \<^verbatim>\<open>rel\<close> without regard to letter case: it takes an
  attribute value of the same length as \<^verbatim>\<open>preload\<close>, lower-cases it and compares.
  So \<^verbatim>\<open>rel="PRELOAD"\<close> and \<^verbatim>\<open>rel="Preload"\<close> are selected too.  (In a value of
  that length only the letters A to Z can lower-case to letters of \<^verbatim>\<open>preload\<close>, so
  lower-casing these is all that matters.)
  \<open>preload_callback\<close> is the body of the callback on the attribute table of one selected
  element; \<open>None\<close> stands for \<^verbatim>\<open>$element.remove()\<close>.
\<close>

definition ascii_lower :: "char \<Rightarrow> char" where
  "ascii_lower c =
     (case map_of (zip ''ABCDEFGHIJKLMNOPQRSTUVWXYZ'' ''abcdefghijklmnopqrstuvwxyz'') c of
        None \<Rightarrow> c
      | Some l \<Rightarrow> l)"

definition rel_is_preload :: "attribs \<Rightarrow> bool" where
  "rel_is_preload a =
     (case map_of a ''rel'' of
        None \<Rightarrow> False
      | Some v \<Rightarrow> map ascii_lower v = ''preload'')"

definition is_preload_link :: "node \<Rightarrow> bool" where
  "is_preload_link n = (tag_is ''link'' n \<and> rel_is_preload (attribs_of n))"

definition preload_callback :: "attribs \<Rightarrow> attribs option" where
  "preload_callback a =
     (let as = map_of a ''as'' in
      if as = Some ''style'' then
        Some (AList.delete ''as'' (AList.update ''rel'' ''stylesheet'' a))
      else if as = Some ''font'' then None
      else Some a)"

text \<open>
  The loop over the selection.  A removed element leaves the tree with everything below
  it; an element that stays keeps its children, which are visited in turn when they are
  selected themselves.
\<close>

fun preload_each :: "node list \<Rightarrow> node list" where
  "preload_each [] = []"
| "preload_each (Element t a cs # ns) =
     (if is_preload_link (Element t a cs) then
        (case preload_callback a of
           None \<Rightarrow> preload_each ns
         | Some a' \<Rightarrow> Element t a' (preload_each cs) # preload_each ns)
      else Element t a (preload_each cs) # preload_each ns)"
| "preload_each (Text s # ns) = Text s # preload_each ns"
| "preload_each (Comment s # ns) = Comment s # preload_each ns"

definition normalizePreloads :: "document \<Rightarrow> document" where
  "normalizePreloads d = d\<lparr>head := preload_each (head d), body := preload_each (body d)\<rparr>"

section \<open>File paths\<close>

text \<open>
  \<^verbatim>\<open>filePath.split(path.sep)\<close> with the POSIX separator: the pieces between the
  slashes, empty pieces included (\<^verbatim>\<open>"a//b"\<close> gives three pieces and the empty path
  gives one empty piece).
\<close>

fun split_path :: "string \<Rightarrow> string list" where
  "split_path [] = [[]]"
| "split_path (c # cs) =
     (if c = CHR ''/'' then [] # split_path cs
      else (case split_path cs of
              [] \<Rightarrow> [[c]]
            | p # ps \<Rightarrow> (c # p) # ps))"

text \<open>\<^verbatim>\<open>Array.prototype.findIndex\<close>; \<open>None\<close> is the result \<^verbatim>\<open>-1\<close>.\<close>

fun findIndex :: "('a \<Rightarrow> bool) \<Rightarrow> 'a list \<Rightarrow> nat option" where
  "findIndex P [] = None"
| "findIndex P (x # xs) = (if P x then Some 0 else map_option Suc (findIndex P xs))"

text \<open>\<^verbatim>\<open>String.prototype.includes\<close>: the second string occurs in the first.\<close>

fun startsWith :: "string \<Rightarrow> string \<Rightarrow> bool" where
  "startsWith s [] = True"
| "startsWith [] (c # cs) = False"
| "startsWith (x # xs) (c # cs) = (x = c \<and> startsWith xs cs)"

fun str_includes :: "string \<Rightarrow> string \<Rightarrow> bool" where
  "str_includes [] t = (t = [])"
| "str_includes (x # xs) t = (startsWith (x # xs) t \<or> str_includes xs t)"

text \<open>
  The first lines of \<^verbatim>\<open>updateTDK\<close>: the two path pieces after the first piece
  \<^verbatim>\<open>cf\<close>, or \<open>None\<close> where the function returns early (no such piece, or fewer than
  two pieces after it).
\<close>

definition path_key :: "string \<Rightarrow> (string \<times> string) option" where
  "path_key filePath =
     (let pathParts = split_path filePath in
      case findIndex (\<lambda>part. part = ''cf'') pathParts of
        None \<Rightarrow> None
      | Some cfIndex \<Rightarrow>
          if cfIndex + 2 \<ge> length pathParts then None
          else Some (pathParts ! (cfIndex + 1), pathParts ! (cfIndex + 2)))"

section \<open>Translation tables\<close>

text \<open>
  The three tables come from another module, \<^verbatim>\<open>../config/i18n\<close>, which is not
  modelled: they are parameters.  A table maps a page type to a title and a message.
  (A key that JavaScript's \<^verbatim>\<open>in\<close> finds on the prototype only yields an undefined
  title and message, which the later tests treat like the empty string: the same as no
  entry.)
\<close>

record translation =
  title :: string
  message :: string

record i18n =
  blockPageTranslations :: "string \<rightharpoonup> translation"
  errorPageTranslations :: "string \<rightharpoonup> translation"
  challengePageTranslations :: "string \<rightharpoonup> translation"

text \<open>
  The chain of tests in \<^verbatim>\<open>updateTDK\<close> that fills \<^verbatim>\<open>pageTitle\<close> and
  \<^verbatim>\<open>pageDescription\<close>, both initially empty.
\<close>

definition translate :: "i18n \<Rightarrow> string \<Rightarrow> string \<Rightarrow> string \<times> string" where
  "translate tr directory tp =
     (if directory = ''block'' \<and> blockPageTranslations tr tp \<noteq> None then
        (title (the (blockPageTranslations tr tp)), message (the (blockPageTranslations tr tp)))
      else if directory = ''error'' \<and> errorPageTranslations tr tp \<noteq> None then
        (title (the (errorPageTranslations tr tp)), message (the (errorPageTranslations tr tp)))
      else if directory = ''challenge'' \<and> challengePageTranslations tr tp \<noteq> None then
        (title (the (challengePageTranslations tr tp)),
         message (the (challengePageTranslations tr tp)))
      else ([], []))"

section \<open>Markup given as text\<close>

text \<open>
  \<^verbatim>\<open>append\<close> and \<^verbatim>\<open>prepend\<close> receive markup as text, with the message, the build
  date and the version spliced in unescaped, and cheerio parses that text.  A value
  without a double quote, an ampersand, a NUL or a carriage return comes back from the
  parser as the attribute value it was; for any other value the outcome is whatever
  cheerio's parser makes of the text, and that parser is a parameter of the model.
\<close>

definition attr_safe :: "string \<Rightarrow> bool" where
  "attr_safe s = list_all (\<lambda>c. c \<noteq> CHR 0x22 \<and> c \<noteq> CHR ''&'' \<and> c \<noteq> CHR 0x00 \<and> c \<noteq> CHR 0x0D) s"

definition meta_tag :: "string \<Rightarrow> string \<Rightarrow> node" where
  "meta_tag nm c = Element ''meta'' [(''name'', nm), (''content'', c)] []"

definition meta_html :: "string \<Rightarrow> string \<Rightarrow> string" where
  "meta_html nm c =
     ''<meta name='' @ [CHR 0x22] @ nm @ [CHR 0x22] @ '' content='' @ [CHR 0x22] @ c @ [CHR 0x22] @ ''>''"

definition is_meta_named :: "string \<Rightarrow> node \<Rightarrow> bool" where
  "is_meta_named nm n = (tag_is ''meta'' n \<and> attr n ''name'' = Some nm)"

section \<open>Title, description and keywords\<close>

text \<open>\<^verbatim>\<open>$("title").text(s)\<close>: every title element gets the single text child \<open>s\<close>.\<close>

fun set_title_text :: "string \<Rightarrow> node list \<Rightarrow> node list" where
  "set_title_text s [] = []"
| "set_title_text s (Element t a cs # ns) =
     (if t = ''title'' then Element t a [Text s] # set_title_text s ns
      else Element t a (set_title_text s cs) # set_title_text s ns)"
| "set_title_text s (Text x # ns) = Text x # set_title_text s ns"
| "set_title_text s (Comment x # ns) = Comment x # set_title_text s ns"

text \<open>\<^verbatim>\<open>$(selector).attr(k, v)\<close>: every selected element gets the attribute.\<close>

fun set_attr :: "(node \<Rightarrow> bool) \<Rightarrow> string \<Rightarrow> string \<Rightarrow> node list \<Rightarrow> node list" where
  "set_attr P k v [] = []"
| "set_attr P k v (Element t a cs # ns) =
     Element t (if P (Element t a cs) then AList.update k v a else a) (set_attr P k v cs)
       # set_attr P k v ns"
| "set_attr P k v (Text x # ns) = Text x # set_attr P k v ns"
| "set_attr P k v (Comment x # ns) = Comment x # set_attr P k v ns"

definition on_nodes :: "(node list \<Rightarrow> node list) \<Rightarrow> document \<Rightarrow> document" where
  "on_nodes f d = d\<lparr>head := f (head d), body := f (body d)\<rparr>"

text \<open>
  \<^verbatim>\<open>updateTDK\<close> after its early return is three blocks in a row, each guarded by a
  test: the title, the description, the keywords.
\<close>

definition tdk_title :: "string \<Rightarrow> document \<Rightarrow> document" where
  "tdk_title pageTitle d =
     (if pageTitle \<noteq> [] then on_nodes (set_title_text (pageTitle @ '' - Cloudflare'')) d
      else d)"

definition tdk_description :: "(string \<Rightarrow> node list) \<Rightarrow> string \<Rightarrow> document \<Rightarrow> document" where
  "tdk_description parse pageDescription d =
     (if pageDescription \<noteq> [] then
        if length (select (is_meta_named ''description'') (nodes d)) > 0 then
          on_nodes (set_attr (is_meta_named ''description'') ''content'' pageDescription) d
        else
          d\<lparr>head := head d @
                 (if attr_safe pageDescription then [meta_tag ''description'' pageDescription]
                  else parse (meta_html ''description'' pageDescription))\<rparr>
      else d)"

definition tdk_keywords :: "document \<Rightarrow> document" where
  "tdk_keywords d =
     (if length (select (is_meta_named ''keywords'') (nodes d)) = 0 then
        d\<lparr>head := head d @ [meta_tag ''keywords'' ''Cloudflare, security, WAF, protection'']\<rparr>
      else d)"

definition updateTDK :: "(string \<Rightarrow> node list) \<Rightarrow> i18n \<Rightarrow> string \<Rightarrow> document \<Rightarrow> document" where
  "updateTDK parse tr filePath d =
     (case path_key filePath of
        None \<Rightarrow> d
      | Some (directory, tp) \<Rightarrow>
          (case translate tr directory tp of
             (pageTitle, pageDescription) \<Rightarrow>
               tdk_keywords (tdk_description parse pageDescription (tdk_title pageTitle d))))"

section \<open>The console\<close>

text \<open>
  The lines the script prints, in the order of printing: \<^verbatim>\<open>Processed: <path>\<close>,
  \<^verbatim>\<open>Error processing <path>:\<close>, the warning of \<^verbatim>\<open>addCloudflareMetaTags\<close> that
  the version could not be read, and the three lines of \<^verbatim>\<open>main\<close> (the directory
  does not exist, all files processed, the error caught by \<^verbatim>\<open>main\<close>).
\<close>

datatype log_line =
    Processed string
  | ErrorProcessing string
  | VersionWarning
  | NoOutDir
  | AllProcessed
  | ErrorMain

section \<open>Platform meta tags\<close>

text \<open>
  \<^verbatim>\<open>addCloudflareMetaTags\<close> reads the manifest \<^verbatim>\<open>package.json\<close>.  The read can
  fail, the text can fail to parse (or parse to \<^verbatim>\<open>null\<close>, on which reading the field
  throws as well), and the parsed object can have a version (a string, as the manifest
  format has it) or none.  Every failure is caught inside the function,
  printed as a warning, and leaves the initial value \<^verbatim>\<open>"unknown"\<close>; a missing or
  empty version gives the same value by \<^verbatim>\<open>packageJson.version || "unknown"\<close>,
  without a warning.
\<close>

datatype manifest = Unreadable | Unparsable | Parsed "string option"

definition manifest_warning :: "manifest \<Rightarrow> log_line list" where
  "manifest_warning m =
     (case m of
        Parsed v \<Rightarrow> []
      | Unreadable \<Rightarrow> [VersionWarning]
      | Unparsable \<Rightarrow> [VersionWarning])"

definition manifest_version :: "manifest \<Rightarrow> string" where
  "manifest_version m =
     (case m of
        Parsed (Some v) \<Rightarrow> (if v \<noteq> [] then v else ''unknown'')
      | Parsed None \<Rightarrow> ''unknown''
      | Unreadable \<Rightarrow> ''unknown''
      | Unparsable \<Rightarrow> ''unknown'')"

text \<open>
  The template literal given to \<^verbatim>\<open>prepend\<close>, and the nodes it parses to: the five
  tags with the line breaks and indentation between them as text nodes.
\<close>

definition platform_html :: "string \<Rightarrow> string \<Rightarrow> string" where
  "platform_html buildDate version =
     CHR 0x0A # ''    '' @ meta_html ''client-ip'' ''::CLIENT_IP::'' @
     CHR 0x0A # ''    '' @ meta_html ''ray-id'' ''::RAY_ID::'' @
     CHR 0x0A # ''    '' @ meta_html ''location-code'' ''::GEO::'' @
     CHR 0x0A # ''    '' @ meta_html ''build-date'' buildDate @
     CHR 0x0A # ''    '' @ meta_html ''version'' version @
     CHR 0x0A # ''  ''"

definition platform_nodes :: "string \<Rightarrow> string \<Rightarrow> node list" where
  "platform_nodes buildDate version =
     [Text (CHR 0x0A # ''    ''), meta_tag ''client-ip'' ''::CLIENT_IP::'',
      Text (CHR 0x0A # ''    ''), meta_tag ''ray-id'' ''::RAY_ID::'',
      Text (CHR 0x0A # ''    ''), meta_tag ''location-code'' ''::GEO::'',
      Text (CHR 0x0A # ''    ''), meta_tag ''build-date'' buildDate,
      Text (CHR 0x0A # ''    ''), meta_tag ''version'' version,
      Text (CHR 0x0A # ''  '')]"

text \<open>The function returns the document together with the lines it printed.\<close>

definition addCloudflareMetaTags ::
  "(string \<Rightarrow> node list) \<Rightarrow> manifest \<Rightarrow> string \<Rightarrow> document \<Rightarrow> document \<times> log_line list" where
  "addCloudflareMetaTags parse m buildDate d =
     (let version = manifest_version m in
      (d\<lparr>head := (if attr_safe buildDate \<and> attr_safe version
                   then platform_nodes buildDate version
                   else parse (platform_html buildDate version)) @ head d\<rparr>,
       manifest_warning m))"

section \<open>One file\<close>

text \<open>
  What the script takes from outside: cheerio's parser for markup given as text (used
  by the model only for values that are not \<open>attr_safe\<close>), the translation tables, the
  manifest, the clock (the time read while the file of a given path is processed, as
  \<^verbatim>\<open>toISOString\<close> prints it), and cheerio's \<^verbatim>\<open>load\<close> and \<^verbatim>\<open>html\<close>
  (\<open>None\<close> from \<open>load\<close> stands for an exception).
\<close>

record env =
  parse_fragment :: "string \<Rightarrow> node list"
  tables :: i18n
  package_json :: manifest
  now :: "string \<Rightarrow> string"
  load :: "string \<Rightarrow> document option"
  render :: "document \<Rightarrow> string"

text \<open>
  The edits of \<^verbatim>\<open>processHtmlFile\<close> between \<^verbatim>\<open>cheerio.load\<close> and
  \<^verbatim>\<open>$.html()\<close>, in the order of the source, with the lines printed on the way.
  \<^verbatim>\<open>path.join("out", "cf")\<close> is \<^verbatim>\<open>out/cf\<close>.
\<close>

definition transform :: "env \<Rightarrow> string \<Rightarrow> document \<Rightarrow> document \<times> log_line list" where
  "transform e filePath d =
     (let d1 = normalizePreloads d;
          d2 = updateTDK (parse_fragment e) (tables e) filePath d1;
          (d3, printed) =
            (if str_includes filePath ''out/cf''
             then addCloudflareMetaTags (parse_fragment e) (package_json e) (now e filePath) d2
             else (d2, []))
      in (moveScriptsToBodyBottom d3, printed))"

section \<open>The file system and the run\<close>

record disk_file =
  contents :: string
  readable :: bool
  writable :: bool

datatype dirent = FileEntry string | DirEntry string "dirent list" | BrokenEntry string

text \<open>
  The world of a run: the tree below \<^verbatim>\<open>./out\<close> as \<^verbatim>\<open>readdirSync\<close> and
  \<^verbatim>\<open>statSync\<close> show it (\<open>None\<close> when the directory does not exist; a
  \<open>BrokenEntry\<close> is a name on which one of the two throws), the files by path, and the
  lines logged so far.
\<close>

record world =
  out_dir :: "dirent list option"
  files :: "string \<rightharpoonup> disk_file"
  console :: "log_line list"

definition readFileSync :: "world \<Rightarrow> string \<Rightarrow> string option" where
  "readFileSync w p =
     (case files w p of
        None \<Rightarrow> None
      | Some f \<Rightarrow> if readable f then Some (contents f) else None)"

text \<open>Writing a path that has no file creates the file.\<close>

definition writeFileSync :: "world \<Rightarrow> string \<Rightarrow> string \<Rightarrow> world option" where
  "writeFileSync w p s =
     (case files w p of
        None \<Rightarrow> Some (w\<lparr>files := (files w)(p \<mapsto> \<lparr>contents = s, readable = True, writable = True\<rparr>)\<rparr>)
      | Some f \<Rightarrow>
          if writable f then Some (w\<lparr>files := (files w)(p \<mapsto> f\<lparr>contents := s\<rparr>)\<rparr>)
          else None)"

definition processHtmlFile :: "env \<Rightarrow> string \<Rightarrow> world \<Rightarrow> world" where
  "processHtmlFile e filePath w =
     (case readFileSync w filePath of
        None \<Rightarrow> w\<lparr>console := console w @ [ErrorProcessing filePath]\<rparr>
      | Some html \<Rightarrow>
          (case load e html of
             None \<Rightarrow> w\<lparr>console := console w @ [ErrorProcessing filePath]\<rparr>
           | Some d \<Rightarrow>
               (case transform e filePath d of
                  (d', printed) \<Rightarrow>
                    (case writeFileSync w filePath (render e d') of
                       None \<Rightarrow> w\<lparr>console := console w @ printed @ [ErrorProcessing filePath]\<rparr>
                     | Some w' \<Rightarrow> w'\<lparr>console := console w' @ printed @ [Processed filePath]\<rparr>))))"

text \<open>
  \<^verbatim>\<open>path.extname\<close> of a path: from the last dot of the last piece, and empty when
  that piece has no dot, starts with its only dot, or is \<^verbatim>\<open>..\<close>.
\<close>

fun last_dot :: "string \<Rightarrow> nat option" where
  "last_dot [] = None"
| "last_dot (c # cs) =
     (case last_dot cs of
        Some i \<Rightarrow> Some (Suc i)
      | None \<Rightarrow> if c = CHR ''.'' then Some 0 else None)"

definition extname :: "string \<Rightarrow> string" where
  "extname p =
     (let b = last (split_path p) in
      case last_dot b of
        None \<Rightarrow> []
      | Some i \<Rightarrow> if i = 0 \<or> b = ''..'' then [] else drop i b)"

text \<open>
  \<^verbatim>\<open>path.join(dirPath, item)\<close> for a directory path that is \<^verbatim>\<open>./out\<close> or an
  earlier result and an item that \<^verbatim>\<open>readdirSync\<close> returned: the two joined by a slash,
  a leading \<^verbatim>\<open>./\<close> dropped by the normalisation.
\<close>

definition path_join :: "string \<Rightarrow> string \<Rightarrow> string" where
  "path_join dirPath item =
     (if startsWith dirPath ''./'' then drop 2 dirPath else dirPath) @ ''/'' @ item"

text \<open>\<open>None\<close>: \<^verbatim>\<open>readdirSync\<close> or \<^verbatim>\<open>statSync\<close> threw.\<close>

fun getAllHtmlFiles :: "string \<Rightarrow> dirent list \<Rightarrow> string list option" where
  "getAllHtmlFiles dirPath [] = Some []"
| "getAllHtmlFiles dirPath (FileEntry item # items) =
     (case getAllHtmlFiles dirPath items of
        None \<Rightarrow> None
      | Some rest \<Rightarrow>
          Some ((if extname (path_join dirPath item) = ''.html''
                 then [path_join dirPath item] else []) @ rest))"
| "getAllHtmlFiles dirPath (DirEntry item sub # items) =
     (case getAllHtmlFiles (path_join dirPath item) sub of
        None \<Rightarrow> None
      | Some found \<Rightarrow>
          (case getAllHtmlFiles dirPath items of
             None \<Rightarrow> None
           | Some rest \<Rightarrow> Some (found @ rest)))"
| "getAllHtmlFiles dirPath (BrokenEntry item # items) = None"

definition process_all :: "env \<Rightarrow> string list \<Rightarrow> world \<Rightarrow> world" where
  "process_all e htmlFiles w = fold (processHtmlFile e) htmlFiles w"

definition main :: "env \<Rightarrow> world \<Rightarrow> world" where
  "main e w =
     (case out_dir w of
        None \<Rightarrow> w\<lparr>console := console w @ [NoOutDir]\<rparr>
      | Some items \<Rightarrow>
          (case getAllHtmlFiles ''./out'' items of
             None \<Rightarrow> w\<lparr>console := console w @ [ErrorMain]\<rparr>
           | Some htmlFiles \<Rightarrow>
               (let w' = process_all e htmlFiles w
                in w'\<lparr>console := console w' @ [AllProcessed]\<rparr>)))"

section \<open>Notions used in the statements\<close>

abbreviation scripts :: "node list \<Rightarrow> node list" where
  "scripts ns \<equiv> select (tag_is ''script'') ns"

abbreviation links :: "node list \<Rightarrow> node list" where
  "links ns \<equiv> select (tag_is ''link'') ns"

abbreviation titles :: "node list \<Rightarrow> node list" where
  "titles ns \<equiv> select (tag_is ''title'') ns"

abbreviation metas :: "string \<Rightarrow> node list \<Rightarrow> node list" where
  "metas nm ns \<equiv> select (is_meta_named nm) ns"

text \<open>
  What the preload edit does to the attribute table of a \<^verbatim>\<open>link\<close> element: the
  selector and the callback together.
\<close>

definition link_after :: "attribs \<Rightarrow> attribs option" where
  "link_after a = (if rel_is_preload a then preload_callback a else Some a)"

text \<open>
  The category and type match an entry of the table of that category.
\<close>

definition has_entry :: "i18n \<Rightarrow> string \<Rightarrow> string \<Rightarrow> bool" where
  "has_entry tr directory tp =
     ((directory = ''block'' \<and> blockPageTranslations tr tp \<noteq> None) \<or>
      (directory = ''error'' \<and> errorPageTranslations tr tp \<noteq> None) \<or>
      (directory = ''challenge'' \<and> challengePageTranslations tr tp \<noteq> None))"

text \<open>
  Tables and an environment for the concrete instances below.  Every value spliced into
  markup in the instances is \<open>attr_safe\<close>, so the parser parameter is never consulted
  there; it is set to a function that returns nothing.
\<close>

definition example_tables :: i18n where
  "example_tables =
     \<lparr>blockPageTranslations =
        [''ip'' \<mapsto> \<lparr>title = ''Access denied'', message = ''Your IP address is blocked''\<rparr>],
      errorPageTranslations =
        [''500'' \<mapsto> \<lparr>title = ''Server error'', message = ''The server failed''\<rparr>],
      challengePageTranslations = Map.empty\<rparr>"

text \<open>
  A stand-in for cheerio's \<^verbatim>\<open>load\<close> and \<^verbatim>\<open>html\<close> in the instances: the empty text
  does not load, any other text loads as a body holding that text, and a tree is
  printed with its tags and its text.
\<close>

fun example_render :: "node list \<Rightarrow> string" where
  "example_render [] = []"
| "example_render (Element t a cs # ns) =
     ''<'' @ t @ ''>'' @ example_render cs @ ''</'' @ t @ ''>'' @ example_render ns"
| "example_render (Text s # ns) = s @ example_render ns"
| "example_render (Comment s # ns) = example_render ns"

definition example_env :: env where
  "example_env =
     \<lparr>parse_fragment = (\<lambda>s. []),
      tables = example_tables,
      package_json = Parsed (Some ''1.2.3''),
      now = (\<lambda>p. ''2025-01-01T00:00:00.000Z''),
      load = (\<lambda>s. if s = [] then None else Some \<lparr>head = [], body = [Text s]\<rparr>),
      render = (\<lambda>d. example_render (nodes d))\<rparr>"

text \<open>\<^verbatim>\<open>.text()\<close> of a selection: the text below the selected elements, in order.\<close>

fun text_of :: "node list \<Rightarrow> string" where
  "text_of [] = []"
| "text_of (Element t a cs # ns) = text_of cs @ text_of ns"
| "text_of (Text s # ns) = s @ text_of ns"
| "text_of (Comment s # ns) = text_of ns"

text \<open>No key of the three tables ends in \<^verbatim>\<open>.html\<close>.\<close>

definition keys_without_html :: "i18n \<Rightarrow> bool" where
  "keys_without_html tr =
     (\<forall>k. suffix ''.html'' k \<longrightarrow>
          blockPageTranslations tr k = None \<and> errorPageTranslations tr k = None \<and>
          challengePageTranslations tr k = None)"

text \<open>
  One file seen alone: the text that is written for it (\<open>None\<close> when reading, loading or
  writing fails), the file afterwards, and the lines printed for it.
\<close>

definition processed :: "env \<Rightarrow> string \<Rightarrow> disk_file \<Rightarrow> string option" where
  "processed e p f =
     (if readable f \<and> writable f then
        (case load e (contents f) of
           None \<Rightarrow> None
         | Some d \<Rightarrow> Some (render e (fst (transform e p d))))
      else None)"

definition file_after :: "env \<Rightarrow> string \<Rightarrow> disk_file option \<Rightarrow> disk_file option" where
  "file_after e p fo =
     (case fo of
        None \<Rightarrow> None
      | Some f \<Rightarrow>
          (case processed e p f of
             None \<Rightarrow> Some f
           | Some out \<Rightarrow> Some (f\<lparr>contents := out\<rparr>)))"

text \<open>
  The last line printed for a file, and the warning that can precede it (printed when
  the file was read and loaded, its path passes the test for the platform tags, and the
  manifest cannot be read or parsed).
\<close>

definition line_for :: "env \<Rightarrow> string \<Rightarrow> disk_file option \<Rightarrow> log_line" where
  "line_for e p fo =
     (case fo of
        None \<Rightarrow> ErrorProcessing p
      | Some f \<Rightarrow>
          (case processed e p f of
             None \<Rightarrow> ErrorProcessing p
           | Some out \<Rightarrow> Processed p))"

definition warning_for :: "env \<Rightarrow> string \<Rightarrow> disk_file option \<Rightarrow> log_line list" where
  "warning_for e p fo =
     (case fo of
        None \<Rightarrow> []
      | Some f \<Rightarrow>
          if readable f \<and> load e (contents f) \<noteq> None \<and> str_includes p ''out/cf''
          then manifest_warning (package_json e) else [])"

definition lines_for :: "env \<Rightarrow> string \<Rightarrow> disk_file option \<Rightarrow> log_line list" where
  "lines_for e p fo = warning_for e p fo @ [line_for e p fo]"

text \<open>
  A world for the instances: a page below \<^verbatim>\<open>out/cf\<close>, a page that cannot be read, a
  page that is empty (which the stand-in for \<^verbatim>\<open>load\<close> refuses), a page that cannot be
  written, and a last page with nothing wrong.
\<close>

definition example_world :: world where
  "example_world =
     \<lparr>out_dir = Some [FileEntry ''bad.html'', FileEntry ''empty.html'',
                      DirEntry ''cf'' [DirEntry ''block'' [DirEntry ''ip'' [FileEntry ''index.html'']]],
                      FileEntry ''locked.html'', FileEntry ''notes.txt'', FileEntry ''z.html''],
      files =
        [''out/bad.html'' \<mapsto> \<lparr>contents = ''secret'', readable = False, writable = True\<rparr>,
         ''out/empty.html'' \<mapsto> \<lparr>contents = [], readable = True, writable = True\<rparr>,
         ''out/cf/block/ip/index.html'' \<mapsto> \<lparr>contents = ''hello'', readable = True, writable = True\<rparr>,
         ''out/locked.html'' \<mapsto> \<lparr>contents = ''fixed'', readable = True, writable = False\<rparr>,
         ''out/notes.txt'' \<mapsto> \<lparr>contents = ''note'', readable = True, writable = True\<rparr>,
         ''out/z.html'' \<mapsto> \<lparr>contents = ''world'', readable = True, writable = True\<rparr>],
      console = []\<rparr>"

text \<open>
  A directory listing as \<^verbatim>\<open>readdirSync\<close> gives it: no name holds a slash, and no
  name occurs twice in one directory.
\<close>

fun entry_name :: "dirent \<Rightarrow> string" where
  "entry_name (FileEntry n) = n"
| "entry_name (DirEntry n sub) = n"
| "entry_name (BrokenEntry n) = n"

fun listing_ok :: "dirent list \<Rightarrow> bool" where
  "listing_ok [] = True"
| "listing_ok (FileEntry n # items) =
     (CHR ''/'' \<notin> set n \<and> n \<notin> entry_name ` set items \<and> listing_ok items)"
| "listing_ok (DirEntry n sub # items) =
     (CHR ''/'' \<notin> set n \<and> n \<notin> entry_name ` set items \<and> listing_ok sub \<and> listing_ok items)"
| "listing_ok (BrokenEntry n # items) =
     (CHR ''/'' \<notin> set n \<and> n \<notin> entry_name ` set items \<and> listing_ok items)"

text \<open>A directory path that the normalisation of \<^verbatim>\<open>path.join\<close> leaves as it is.\<close>

definition plain_dir :: "string \<Rightarrow> bool" where
  "plain_dir dp = (dp \<noteq> ''.'' \<and> \<not> startsWith dp ''./'')"

section \<open>The parser on markup with tags in the spliced value\<close>

text \<open>
  A value that is not \<open>attr_safe\<close> is given to cheerio's parser, which is the HTML
  tokenizer followed by the tree builder.  The part of both that reads text, start tags
  with double-quoted attribute values, and end tags is written out here, to follow one
  such value through the code: in the data state a \<^verbatim>\<open><\<close> opens a tag and anything
  else is text; a double-quoted attribute value ends at the next double quote; a
  \<^verbatim>\<open>>\<close> ends the tag; tag and attribute names are lower-cased, and of two
  attributes with one name the first stays.  The tree builder adds text and void
  elements to the open element, opens an element at any other start tag and closes it at
  its end tag.  (Character references, comments, unquoted and single-quoted values are
  not covered; the markup below has none.  The content of a \<^verbatim>\<open>title\<close> element is
  read by the HTML tokenizer as text up to the end tag \<^verbatim>\<open></title>\<close>; on content
  without \<^verbatim>\<open><\<close>, as below, the data state reads the same.)
\<close>

datatype token = StartTag string attribs | EndTag string | Chars string

datatype tokenizer_state =
    Data string
  | TagOpen
  | EndTagOpen
  | TagName string
  | EndTagName string
  | BeforeAttrName string attribs
  | AttrName string attribs string
  | BeforeAttrValue string attribs string
  | AttrValueDoubleQuoted string attribs string string
  | AfterAttrValue string attribs

definition emit_chars :: "string \<Rightarrow> token list" where
  "emit_chars acc = (if acc = [] then [] else [Chars acc])"

definition add_attr :: "attribs \<Rightarrow> string \<Rightarrow> string \<Rightarrow> attribs" where
  "add_attr as k v = (if map_of as (map ascii_lower k) = None
                      then as @ [(map ascii_lower k, v)] else as)"

definition is_space :: "char \<Rightarrow> bool" where
  "is_space c = (c = CHR '' '' \<or> c = CHR 0x0A \<or> c = CHR 0x09 \<or> c = CHR 0x0C)"

fun tokenize :: "tokenizer_state \<Rightarrow> string \<Rightarrow> token list" where
  "tokenize st [] = (case st of Data acc \<Rightarrow> emit_chars acc | _ \<Rightarrow> [])"
| "tokenize st (c # cs) =
     (case st of
        Data acc \<Rightarrow>
          if c = CHR ''<'' then emit_chars acc @ tokenize TagOpen cs
          else tokenize (Data (acc @ [c])) cs
      | TagOpen \<Rightarrow>
          if c = CHR ''/'' then tokenize EndTagOpen cs else tokenize (TagName [c]) cs
      | EndTagOpen \<Rightarrow> tokenize (EndTagName [c]) cs
      | TagName n \<Rightarrow>
          if is_space c then tokenize (BeforeAttrName n []) cs
          else if c = CHR ''>'' then StartTag (map ascii_lower n) [] # tokenize (Data []) cs
          else tokenize (TagName (n @ [c])) cs
      | EndTagName n \<Rightarrow>
          if c = CHR ''>'' then EndTag (map ascii_lower n) # tokenize (Data []) cs
          else tokenize (EndTagName (n @ [c])) cs
      | BeforeAttrName n as \<Rightarrow>
          if is_space c then tokenize (BeforeAttrName n as) cs
          else if c = CHR ''>'' then StartTag (map ascii_lower n) as # tokenize (Data []) cs
          else tokenize (AttrName n as [c]) cs
      | AttrName n as k \<Rightarrow>
          if c = CHR ''='' then tokenize (BeforeAttrValue n as k) cs
          else if is_space c then tokenize (BeforeAttrName n (add_attr as k [])) cs
          else if c = CHR ''>''
            then StartTag (map ascii_lower n) (add_attr as k []) # tokenize (Data []) cs
          else tokenize (AttrName n as (k @ [c])) cs
      | BeforeAttrValue n as k \<Rightarrow>
          if c = CHR 0x22 then tokenize (AttrValueDoubleQuoted n as k []) cs
          else if is_space c then tokenize (BeforeAttrValue n as k) cs
          else tokenize (BeforeAttrName n (add_attr as k [])) cs
      | AttrValueDoubleQuoted n as k v \<Rightarrow>
          if c = CHR 0x22 then tokenize (AfterAttrValue n (add_attr as k v)) cs
          else tokenize (AttrValueDoubleQuoted n as k (v @ [c])) cs
      | AfterAttrValue n as \<Rightarrow>
          if is_space c then tokenize (BeforeAttrName n as) cs
          else if c = CHR ''>'' then StartTag (map ascii_lower n) as # tokenize (Data []) cs
          else tokenize (AttrName n as [c]) cs)"

definition void_element :: "string \<Rightarrow> bool" where
  "void_element n =
     (n \<in> set [''area'', ''base'', ''br'', ''col'', ''embed'', ''hr'', ''img'', ''input'',
               ''link'', ''meta'', ''source'', ''track'', ''wbr''])"

text \<open>
  The tree builder: the open elements, innermost first, each with the nodes that stand
  before it in its parent; the nodes collected so far in the innermost open element; and
  the tokens to come.  An end tag that does not close the innermost open element is
  ignored, and what is still open at the end is closed.
\<close>

fun build :: "(string \<times> attribs \<times> node list) list \<Rightarrow> node list \<Rightarrow> token list \<Rightarrow> node list" where
  "build [] cur [] = cur"
| "build ((n, a, before) # stack) cur [] = build stack (before @ [Element n a cur]) []"
| "build stack cur (Chars s # ts) = build stack (cur @ [Text s]) ts"
| "build stack cur (StartTag n a # ts) =
     (if void_element n then build stack (cur @ [Element n a []]) ts
      else build ((n, a, cur) # stack) [] ts)"
| "build [] cur (EndTag n # ts) = build [] cur ts"
| "build ((m, a, before) # stack) cur (EndTag n # ts) =
     (if m = n then build stack (before @ [Element m a cur]) ts
      else build ((m, a, before) # stack) cur ts)"

definition html_fragment :: "string \<Rightarrow> node list" where
  "html_fragment s = build [] [] (tokenize (Data []) s)"

text \<open>
  A block table whose message for the type \<^verbatim>\<open>ip\<close> holds a double quote followed by
  markup.
\<close>

definition markup_tables :: i18n where
  "markup_tables =
     \<lparr>blockPageTranslations =
        [''ip'' \<mapsto> \<lparr>title = ''Access denied'', message = CHR 0x22 # ''><title>x</title>''\<rparr>],
      errorPageTranslations = Map.empty,
      challengePageTranslations = Map.empty\<rparr>"

section \<open>Selections\<close>

lemma select_append: "select P (xs @ ys) = select P xs @ select P ys"
  by (induction P xs rule: select.induct) auto

lemma select_all: "list_all P (select P ns)"
  by (induction P ns rule: select.induct) auto

lemma map_filter_append:
  "List.map_filter f (xs @ ys) = List.map_filter f xs @ List.map_filter f ys"
  by (simp add: List.map_filter_def)

section \<open>Script relocation: proofs\<close>

lemma scripts_remove_scripts: "scripts (remove_scripts ns) = []"
  by (induction ns rule: remove_scripts.induct) auto

lemma scripts_detached:
  "list_all (tag_is ''script'') xs \<Longrightarrow> scripts (map detached xs) = map detached xs"
proof (induction xs)
  case Nil
  then show ?case by simp
next
  case (Cons x xs)
  then show ?case by (cases x) (auto simp: scripts_remove_scripts)
qed

lemma remove_scripts_id: "scripts ns = [] \<Longrightarrow> remove_scripts ns = ns"
  by (induction ns rule: remove_scripts.induct) (auto split: if_splits)

lemma detached_id:
  "list_all (\<lambda>n. scripts (children n) = []) xs \<Longrightarrow> map detached xs = xs"
proof (induction xs)
  case Nil
  then show ?case by simp
next
  case (Cons x xs)
  then show ?case by (cases x) (auto simp: remove_scripts_id)
qed

text \<open>
  Claim C2.  When the head holds no script element the document is left as it is.
  When it holds \<open>N \<ge> 1\<close> of them, afterwards the head holds none, the children of the
  body are the former children followed by the \<open>N\<close> scripts in their order in the head,
  and the script elements of the body are the \<open>M\<close> former ones followed by those \<open>N\<close>.
  The appended elements are the head's scripts themselves whenever no script of the
  head stands inside another one (in general each comes without the scripts that stood
  inside it, which are appended in their own right).
\<close>

theorem moveScripts_relocates:
  "(scripts (head d) = [] \<longrightarrow> moveScriptsToBodyBottom d = d) \<and>
   (scripts (head d) \<noteq> [] \<longrightarrow>
      scripts (head (moveScriptsToBodyBottom d)) = [] \<and>
      body (moveScriptsToBodyBottom d) = body d @ map detached (scripts (head d)) \<and>
      scripts (body (moveScriptsToBodyBottom d)) =
        scripts (body d) @ map detached (scripts (head d)) \<and>
      length (scripts (body (moveScriptsToBodyBottom d))) =
        length (scripts (body d)) + length (scripts (head d)) \<and>
      (list_all (\<lambda>n. scripts (children n) = []) (scripts (head d)) \<longrightarrow>
         map detached (scripts (head d)) = scripts (head d)))"
  by (simp add: moveScriptsToBodyBottom_def Let_def select_append scripts_remove_scripts
        scripts_detached select_all detached_id)

theorem moveScripts_relocates_witness:
  "moveScriptsToBodyBottom
     \<lparr>head = [Element ''title'' [] [Text ''t'']], body = [Element ''script'' [] [Text ''m'']]\<rparr>
   = \<lparr>head = [Element ''title'' [] [Text ''t'']], body = [Element ''script'' [] [Text ''m'']]\<rparr> \<and>
   head (moveScriptsToBodyBottom
     \<lparr>head = [Element ''script'' [(''src'', ''a.js'')] [], Element ''title'' [] [Text ''t''],
              Element ''script'' [] [Text ''b'']],
      body = [Element ''p'' [] [], Element ''script'' [] [Text ''m'']]\<rparr>)
     = [Element ''title'' [] [Text ''t'']] \<and>
   body (moveScriptsToBodyBottom
     \<lparr>head = [Element ''script'' [(''src'', ''a.js'')] [], Element ''title'' [] [Text ''t''],
              Element ''script'' [] [Text ''b'']],
      body = [Element ''p'' [] [], Element ''script'' [] [Text ''m'']]\<rparr>)
     = [Element ''p'' [] [], Element ''script'' [] [Text ''m''],
        Element ''script'' [(''src'', ''a.js'')] [], Element ''script'' [] [Text ''b'']]"
  using moveScripts_relocates
    [of "\<lparr>head = [Element ''title'' [] [Text ''t'']], body = [Element ''script'' [] [Text ''m'']]\<rparr>"]
    moveScripts_relocates
    [of "\<lparr>head = [Element ''script'' [(''src'', ''a.js'')] [], Element ''title'' [] [Text ''t''],
              Element ''script'' [] [Text ''b'']],
      body = [Element ''p'' [] [], Element ''script'' [] [Text ''m'']]\<rparr>"]
  by (simp add: moveScriptsToBodyBottom_def)

section \<open>Preload normalisation: proofs\<close>

lemma rel_is_preload_exact: "map_of a ''rel'' = Some ''preload'' \<Longrightarrow> rel_is_preload a"
  by (simp add: rel_is_preload_def ascii_lower_def)

lemma rel_stylesheet_not_preload:
  "\<not> rel_is_preload (AList.delete ''as'' (AList.update ''rel'' ''stylesheet'' a))"
  by (simp add: rel_is_preload_def update_conv' delete_conv')

lemma as_deleted: "map_of (AList.delete ''as'' (AList.update ''rel'' ''stylesheet'' a)) ''as'' = None"
  by (simp add: delete_conv')

lemma preload_callback_cases:
  "preload_callback a = None \<and> map_of a ''as'' = Some ''font'' \<or>
   preload_callback a = Some (AList.delete ''as'' (AList.update ''rel'' ''stylesheet'' a)) \<and>
     map_of a ''as'' = Some ''style'' \<or>
   preload_callback a = Some a \<and> map_of a ''as'' \<noteq> Some ''style'' \<and> map_of a ''as'' \<noteq> Some ''font''"
  by (cases "map_of a ''as'' = Some ''style''"; cases "map_of a ''as'' = Some ''font''")
     (simp_all add: preload_callback_def Let_def)

lemma preload_each_idem: "preload_each (preload_each ns) = preload_each ns"
proof (induction ns rule: preload_each.induct)
  case 1
  then show ?case by simp
next
  case (2 t a cs ns)
  show ?case
  proof (cases "is_preload_link (Element t a cs)")
    case False
    then have "\<not> is_preload_link (Element t a (preload_each cs))"
      by (simp add: is_preload_link_def)
    with False 2 show ?thesis by simp
  next
    case True
    then have link: "t = ''link''" and rel: "rel_is_preload a"
      by (simp_all add: is_preload_link_def)
    from preload_callback_cases [of a] show ?thesis
    proof (elim disjE conjE)
      assume "preload_callback a = None"
      with True 2 show ?thesis by simp
    next
      assume c: "preload_callback a = Some (AList.delete ''as'' (AList.update ''rel'' ''stylesheet'' a))"
      have "\<not> is_preload_link
               (Element t (AList.delete ''as'' (AList.update ''rel'' ''stylesheet'' a)) (preload_each cs))"
        using rel_stylesheet_not_preload [of a] by (simp add: is_preload_link_def)
      with True c 2 show ?thesis by simp
    next
      assume c: "preload_callback a = Some a"
      from True have "is_preload_link (Element t a (preload_each cs))"
        by (simp add: is_preload_link_def)
      with True c 2 show ?thesis by simp
    qed
  qed
next
  case (3 s ns)
  then show ?case by simp
next
  case (4 s ns)
  then show ?case by simp
qed

lemma preload_each_append: "preload_each (xs @ ys) = preload_each xs @ preload_each ys"
  by (induction xs rule: preload_each.induct) (auto split: option.splits)

lemma preload_each_element:
  "preload_each (pre @ Element t a cs # post) =
     preload_each pre @
     (if t = ''link'' then
        (case link_after a of
           None \<Rightarrow> []
         | Some a' \<Rightarrow> [Element t a' (preload_each cs)])
      else [Element t a (preload_each cs)]) @
     preload_each post"
  by (simp add: preload_each_append is_preload_link_def link_after_def split: option.splits)

text \<open>
  In a list of trees where no \<^verbatim>\<open>link\<close> element stands inside another one (a
  \<^verbatim>\<open>link\<close> element has no content in HTML), the \<^verbatim>\<open>link\<close> elements after the edit
  are, in document order, the former ones with their attribute tables passed through
  \<open>link_after\<close>.
\<close>

lemma links_preload_each:
  "list_all (\<lambda>n. links (children n) = []) (links ns) \<Longrightarrow>
   map attribs_of (links (preload_each ns)) =
     List.map_filter link_after (map attribs_of (links ns))"
proof (induction ns rule: preload_each.induct)
  case 1
  then show ?case by (simp add: List.map_filter_simps)
next
  case (2 t a cs ns)
  then show ?case
    by (auto simp: select_append map_filter_append List.map_filter_simps link_after_def
          is_preload_link_def split: option.splits)
next
  case (3 s ns)
  then show ?case by simp
next
  case (4 s ns)
  then show ?case by simp
qed

lemma no_preload_left:
  "select (\<lambda>n. is_preload_link n \<and>
               (attr n ''as'' = Some ''style'' \<or> attr n ''as'' = Some ''font''))
     (preload_each ns) = []"
proof (induction ns rule: preload_each.induct)
  case 1
  then show ?case by simp
next
  case (2 t a cs ns)
  show ?case
  proof (cases "is_preload_link (Element t a cs)")
    case False
    then have "\<not> is_preload_link (Element t a (preload_each cs))"
      by (simp add: is_preload_link_def)
    with False 2 show ?thesis by (simp add: select_append)
  next
    case True
    from preload_callback_cases [of a] show ?thesis
    proof (elim disjE conjE)
      assume "preload_callback a = None"
      with True 2 show ?thesis by simp
    next
      assume c: "preload_callback a = Some (AList.delete ''as'' (AList.update ''rel'' ''stylesheet'' a))"
      have "\<not> is_preload_link
               (Element t (AList.delete ''as'' (AList.update ''rel'' ''stylesheet'' a)) (preload_each cs))"
        using rel_stylesheet_not_preload [of a] by (simp add: is_preload_link_def)
      with True c 2 show ?thesis by (simp add: select_append)
    next
      assume c: "preload_callback a = Some a" and "map_of a ''as'' \<noteq> Some ''style''"
        "map_of a ''as'' \<noteq> Some ''font''"
      with True 2 show ?thesis by (simp add: select_append)
    qed
  qed
next
  case (3 s ns)
  then show ?case by simp
next
  case (4 s ns)
  then show ?case by simp
qed

lemma link_after_style:
  "rel_is_preload a \<Longrightarrow> map_of a ''as'' = Some ''style'' \<Longrightarrow>
   \<exists>a'. link_after a = Some a' \<and> map_of a' ''rel'' = Some ''stylesheet'' \<and>
        map_of a' ''as'' = None \<and>
        (\<forall>k. k \<noteq> ''rel'' \<and> k \<noteq> ''as'' \<longrightarrow> map_of a' k = map_of a k)"
  by (simp add: link_after_def preload_callback_def update_conv' delete_conv')

text \<open>
  Claim C8.  The preload edit applied to its own output gives that output again, and so
  does the script relocation.
\<close>

theorem preload_and_scripts_idempotent:
  "normalizePreloads (normalizePreloads d) = normalizePreloads d \<and>
   moveScriptsToBodyBottom (moveScriptsToBodyBottom d) = moveScriptsToBodyBottom d"
  by (simp add: normalizePreloads_def preload_each_idem moveScriptsToBodyBottom_def Let_def
        scripts_remove_scripts)

text \<open>
  Claim C3.  The edit works on the children of the head and of the body with
  \<open>preload_each\<close>, and in every list of sibling trees, at any depth, it replaces each
  element on its own, whatever stands before and after it: a \<^verbatim>\<open>link\<close> element gets
  the attribute table that \<open>link_after\<close> gives, or is dropped when that gives \<open>None\<close>;
  any other element keeps its attribute table; the children of an element that stays
  are edited in the same way.  For the attribute table of a \<^verbatim>\<open>link\<close> element with
  relation preload (in any letter case, \<^verbatim>\<open>rel="preload"\<close> included):
  with \<^verbatim>\<open>as="style"\<close> the result has \<^verbatim>\<open>rel="stylesheet"\<close>, no \<^verbatim>\<open>as\<close> and every
  other attribute as before; with \<^verbatim>\<open>as="font"\<close> the element is dropped; with any other
  \<^verbatim>\<open>as\<close>, or none, the table is returned as it is (so the element, which has no
  content in HTML, is unchanged).  After the edit no preload link with \<^verbatim>\<open>as="style"\<close>
  or \<^verbatim>\<open>as="font"\<close> is left anywhere in the document.
\<close>

theorem preload_links_normalised:
  "head (normalizePreloads d) = preload_each (head d) \<and>
   body (normalizePreloads d) = preload_each (body d) \<and>
   (\<forall>pre t a cs post.
      preload_each (pre @ Element t a cs # post) =
        preload_each pre @
        (if t = ''link'' then
           (case link_after a of
              None \<Rightarrow> []
            | Some a' \<Rightarrow> [Element t a' (preload_each cs)])
         else [Element t a (preload_each cs)]) @
        preload_each post) \<and>
   select (\<lambda>n. is_preload_link n \<and>
                (attr n ''as'' = Some ''style'' \<or> attr n ''as'' = Some ''font''))
     (nodes (normalizePreloads d)) = [] \<and>
   (\<forall>a. map_of a ''rel'' = Some ''preload'' \<longrightarrow> rel_is_preload a) \<and>
   (\<forall>a. rel_is_preload a \<and> map_of a ''as'' = Some ''style'' \<longrightarrow>
        (\<exists>a'. link_after a = Some a' \<and> map_of a' ''rel'' = Some ''stylesheet'' \<and>
              map_of a' ''as'' = None \<and>
              (\<forall>k. k \<noteq> ''rel'' \<and> k \<noteq> ''as'' \<longrightarrow> map_of a' k = map_of a k))) \<and>
   (\<forall>a. rel_is_preload a \<and> map_of a ''as'' = Some ''font'' \<longrightarrow> link_after a = None) \<and>
   (\<forall>a. \<not> (rel_is_preload a \<and>
            (map_of a ''as'' = Some ''style'' \<or> map_of a ''as'' = Some ''font'')) \<longrightarrow>
        link_after a = Some a)"
proof -
  have "head (normalizePreloads d) = preload_each (head d)"
    and "body (normalizePreloads d) = preload_each (body d)"
    by (simp_all add: normalizePreloads_def)
  moreover have "select (\<lambda>n. is_preload_link n \<and>
                      (attr n ''as'' = Some ''style'' \<or> attr n ''as'' = Some ''font''))
           (nodes (normalizePreloads d)) = []"
    by (simp add: nodes_def normalizePreloads_def select_append no_preload_left)
  moreover have "\<forall>a. rel_is_preload a \<and> map_of a ''as'' = Some ''font'' \<longrightarrow> link_after a = None"
    by (simp add: link_after_def preload_callback_def)
  moreover have "\<forall>a. \<not> (rel_is_preload a \<and>
                  (map_of a ''as'' = Some ''style'' \<or> map_of a ''as'' = Some ''font'')) \<longrightarrow>
              link_after a = Some a"
    by (simp add: link_after_def preload_callback_def)
  ultimately show ?thesis
    using link_after_style rel_is_preload_exact preload_each_element by blast
qed

theorem preload_links_normalised_witness:
  "rel_is_preload [(''rel'', ''preload''), (''as'', ''style''), (''href'', ''a.css'')] \<and>
   rel_is_preload [(''rel'', ''Preload''), (''as'', ''font''), (''href'', ''f.woff2'')] \<and>
   normalizePreloads
     \<lparr>head = [Element ''link'' [(''rel'', ''preload''), (''as'', ''style''), (''href'', ''a.css'')] [],
              Element ''link'' [(''rel'', ''Preload''), (''as'', ''font''), (''href'', ''f.woff2'')] [],
              Element ''link'' [(''rel'', ''preload''), (''as'', ''image''), (''href'', ''i.png'')] [],
              Element ''link'' [(''rel'', ''PRELOAD''), (''as'', ''style''), (''href'', ''b.css'')] [],
              Element ''link'' [(''rel'', ''icon''), (''href'', ''i.ico'')] []],
      body = [Element ''p'' [] [Text ''x'']]\<rparr> =
     \<lparr>head = [Element ''link'' [(''rel'', ''stylesheet''), (''href'', ''a.css'')] [],
              Element ''link'' [(''rel'', ''preload''), (''as'', ''image''), (''href'', ''i.png'')] [],
              Element ''link'' [(''rel'', ''stylesheet''), (''href'', ''b.css'')] [],
              Element ''link'' [(''rel'', ''icon''), (''href'', ''i.ico'')] []],
      body = [Element ''p'' [] [Text ''x'']]\<rparr> \<and>
   link_after [(''rel'', ''preload''), (''as'', ''font''), (''href'', ''f.woff2'')] = None \<and>
   link_after [(''rel'', ''preload''), (''as'', ''image''), (''href'', ''i.png'')] =
     Some [(''rel'', ''preload''), (''as'', ''image''), (''href'', ''i.png'')]"
proof -
  let ?d = "\<lparr>head = [Element ''link'' [(''rel'', ''preload''), (''as'', ''style''), (''href'', ''a.css'')] [],
              Element ''link'' [(''rel'', ''Preload''), (''as'', ''font''), (''href'', ''f.woff2'')] [],
              Element ''link'' [(''rel'', ''preload''), (''as'', ''image''), (''href'', ''i.png'')] [],
              Element ''link'' [(''rel'', ''PRELOAD''), (''as'', ''style''), (''href'', ''b.css'')] [],
              Element ''link'' [(''rel'', ''icon''), (''href'', ''i.ico'')] []],
      body = [Element ''p'' [] [Text ''x'']]\<rparr>"
  have r: "rel_is_preload [(''rel'', ''preload''), (''as'', ''style''), (''href'', ''a.css'')]"
    "rel_is_preload [(''rel'', ''Preload''), (''as'', ''font''), (''href'', ''f.woff2'')]"
    "rel_is_preload [(''rel'', ''preload''), (''as'', ''font''), (''href'', ''f.woff2'')]"
    by (simp_all add: rel_is_preload_def ascii_lower_def)
  from preload_links_normalised [of ?d]
  have hb: "head (normalizePreloads ?d) = preload_each (head ?d)"
    "body (normalizePreloads ?d) = preload_each (body ?d)"
    and f: "rel_is_preload [(''rel'', ''preload''), (''as'', ''font''), (''href'', ''f.woff2'')] \<and>
            map_of [(''rel'', ''preload''), (''as'', ''font''), (''href'', ''f.woff2'')] ''as'' = Some ''font''
            \<longrightarrow> link_after [(''rel'', ''preload''), (''as'', ''font''), (''href'', ''f.woff2'')] = None"
    and k: "\<not> (rel_is_preload [(''rel'', ''preload''), (''as'', ''image''), (''href'', ''i.png'')] \<and>
              (map_of [(''rel'', ''preload''), (''as'', ''image''), (''href'', ''i.png'')] ''as'' = Some ''style'' \<or>
               map_of [(''rel'', ''preload''), (''as'', ''image''), (''href'', ''i.png'')] ''as'' = Some ''font''))
            \<longrightarrow> link_after [(''rel'', ''preload''), (''as'', ''image''), (''href'', ''i.png'')] =
                 Some [(''rel'', ''preload''), (''as'', ''image''), (''href'', ''i.png'')]"
    by blast+
  from f r have f': "link_after [(''rel'', ''preload''), (''as'', ''font''), (''href'', ''f.woff2'')] = None"
    by simp
  from k have k': "link_after [(''rel'', ''preload''), (''as'', ''image''), (''href'', ''i.png'')] =
                 Some [(''rel'', ''preload''), (''as'', ''image''), (''href'', ''i.png'')]"
    by simp
  have "normalizePreloads ?d =
     \<lparr>head = [Element ''link'' [(''rel'', ''stylesheet''), (''href'', ''a.css'')] [],
              Element ''link'' [(''rel'', ''preload''), (''as'', ''image''), (''href'', ''i.png'')] [],
              Element ''link'' [(''rel'', ''stylesheet''), (''href'', ''b.css'')] [],
              Element ''link'' [(''rel'', ''icon''), (''href'', ''i.ico'')] []],
      body = [Element ''p'' [] [Text ''x'']]\<rparr>"
    by (simp add: normalizePreloads_def is_preload_link_def rel_is_preload_def ascii_lower_def
          preload_callback_def)
  with r(1,2) f' k' show ?thesis by simp
qed

section \<open>Title, description and keywords: proofs\<close>

lemma nodes_on_nodes: "nodes (on_nodes f d) = f (head d) @ f (body d)"
  by (simp add: nodes_def on_nodes_def)

lemma titles_set_title_text:
  "list_all (\<lambda>n. children n = [Text s]) (titles (set_title_text s ns))"
  by (induction s ns rule: set_title_text.induct) (auto simp: select_append)

lemma set_title_text_no_title: "titles ns = [] \<Longrightarrow> set_title_text s ns = ns"
  by (induction s ns rule: set_title_text.induct) (auto split: if_splits)

lemma metas_set_title_text_empty:
  "metas nm ns = [] \<Longrightarrow> metas nm (set_title_text s ns) = []"
  by (induction s ns rule: set_title_text.induct) (auto simp: is_meta_named_def split: if_splits)

lemma metas_set_title_text:
  "list_all (\<lambda>n. metas nm (children n) = []) (titles ns) \<Longrightarrow>
   map attribs_of (metas nm (set_title_text s ns)) = map attribs_of (metas nm ns)"
  by (induction s ns rule: set_title_text.induct)
     (auto simp: is_meta_named_def select_append split: if_splits)

lemma titles_set_attr:
  "list_all (\<lambda>n. children n = [Text s]) (titles ns) \<Longrightarrow>
   list_all (\<lambda>n. children n = [Text s]) (titles (set_attr P k v ns))"
  by (induction P k v ns rule: set_attr.induct) (auto simp: select_append)

lemma titles_set_attr_empty: "titles ns = [] \<Longrightarrow> titles (set_attr P k v ns) = []"
  by (induction P k v ns rule: set_attr.induct) (auto split: if_splits)

lemma metas_set_attr_same:
  "k \<noteq> ''name'' \<Longrightarrow>
   map attribs_of (metas nm (set_attr (is_meta_named nm) k v ns)) =
     map (AList.update k v) (map attribs_of (metas nm ns))"
  by (induction "is_meta_named nm" k v ns rule: set_attr.induct)
     (auto simp: is_meta_named_def select_append update_conv')

lemma metas_set_attr_other:
  "k \<noteq> ''name'' \<Longrightarrow> nm \<noteq> nm' \<Longrightarrow>
   map attribs_of (metas nm (set_attr (is_meta_named nm') k v ns)) = map attribs_of (metas nm ns)"
  by (induction "is_meta_named nm'" k v ns rule: set_attr.induct)
     (auto simp: is_meta_named_def select_append update_conv')

lemma metas_set_attr_content:
  "k \<noteq> ''name'' \<Longrightarrow>
   list_all (\<lambda>n. attr n k = Some v) (metas nm (set_attr (is_meta_named nm) k v ns))"
  by (induction "is_meta_named nm" k v ns rule: set_attr.induct)
     (auto simp: is_meta_named_def select_append update_conv')

subsection \<open>The title block\<close>

lemma tdk_title_rewrites:
  "pageTitle \<noteq> [] \<Longrightarrow>
   list_all (\<lambda>n. children n = [Text (pageTitle @ '' - Cloudflare'')])
     (titles (nodes (tdk_title pageTitle d)))"
  by (simp add: tdk_title_def nodes_on_nodes select_append titles_set_title_text)

lemma tdk_title_no_title: "titles (nodes d) = [] \<Longrightarrow> tdk_title pageTitle d = d"
  by (simp add: tdk_title_def on_nodes_def nodes_def select_append set_title_text_no_title)

lemma tdk_title_metas_empty:
  "metas nm (nodes d) = [] \<Longrightarrow> metas nm (nodes (tdk_title pageTitle d)) = []"
  by (simp add: tdk_title_def nodes_on_nodes) (simp add: nodes_def select_append metas_set_title_text_empty)

lemma tdk_title_metas:
  "list_all (\<lambda>n. metas nm (children n) = []) (titles (nodes d)) \<Longrightarrow>
   map attribs_of (metas nm (nodes (tdk_title pageTitle d))) = map attribs_of (metas nm (nodes d))"
  by (simp add: tdk_title_def nodes_on_nodes) (simp add: nodes_def select_append metas_set_title_text)

lemma tdk_title_head:
  "head (tdk_title pageTitle d) =
     (if pageTitle \<noteq> [] then set_title_text (pageTitle @ '' - Cloudflare'') (head d) else head d)"
  by (simp add: tdk_title_def on_nodes_def)

subsection \<open>The description block\<close>

lemma tdk_description_titles:
  "attr_safe pageDescription \<Longrightarrow>
   list_all (\<lambda>n. children n = [Text s]) (titles (nodes d)) \<Longrightarrow>
   list_all (\<lambda>n. children n = [Text s]) (titles (nodes (tdk_description parse pageDescription d)))"
  by (simp add: tdk_description_def nodes_on_nodes)
     (simp add: nodes_def select_append titles_set_attr meta_tag_def)

lemma tdk_description_no_title:
  "attr_safe pageDescription \<Longrightarrow> titles (nodes d) = [] \<Longrightarrow>
   titles (nodes (tdk_description parse pageDescription d)) = []"
  by (simp add: tdk_description_def nodes_on_nodes)
     (simp add: nodes_def select_append titles_set_attr_empty meta_tag_def)

lemma tdk_description_new:
  "pageDescription \<noteq> [] \<Longrightarrow> attr_safe pageDescription \<Longrightarrow>
   metas ''description'' (nodes d) = [] \<Longrightarrow>
   head (tdk_description parse pageDescription d) =
     head d @ [meta_tag ''description'' pageDescription] \<and>
   body (tdk_description parse pageDescription d) = body d \<and>
   metas ''description'' (nodes (tdk_description parse pageDescription d)) =
     [meta_tag ''description'' pageDescription]"
  by (simp add: tdk_description_def nodes_def select_append meta_tag_def is_meta_named_def)

lemma tdk_description_overwrites:
  "pageDescription \<noteq> [] \<Longrightarrow> metas ''description'' (nodes d) \<noteq> [] \<Longrightarrow>
   map attribs_of (metas ''description'' (nodes (tdk_description parse pageDescription d))) =
     map (AList.update ''content'' pageDescription)
       (map attribs_of (metas ''description'' (nodes d)))"
  by (simp add: tdk_description_def nodes_on_nodes)
     (simp add: nodes_def select_append metas_set_attr_same)

lemma tdk_description_content:
  "pageDescription \<noteq> [] \<Longrightarrow> attr_safe pageDescription \<Longrightarrow>
   metas ''description'' (nodes (tdk_description parse pageDescription d)) \<noteq> [] \<and>
   list_all (\<lambda>n. attr n ''content'' = Some pageDescription)
     (metas ''description'' (nodes (tdk_description parse pageDescription d)))"
proof (cases "metas ''description'' (nodes d) = []")
  case True
  assume "pageDescription \<noteq> []" "attr_safe pageDescription"
  from tdk_description_new [OF this True, of parse] show ?thesis
    by (simp add: meta_tag_def)
next
  case False
  assume ne: "pageDescription \<noteq> []"
  from tdk_description_overwrites [OF ne False, of parse]
  have "length (metas ''description'' (nodes (tdk_description parse pageDescription d))) =
        length (metas ''description'' (nodes d))"
    by (metis length_map)
  with False have "metas ''description'' (nodes (tdk_description parse pageDescription d)) \<noteq> []"
    by auto
  moreover have "list_all (\<lambda>n. attr n ''content'' = Some pageDescription)
     (metas ''description'' (nodes (tdk_description parse pageDescription d)))"
    using ne False
    by (simp add: tdk_description_def nodes_on_nodes select_append metas_set_attr_content)
  ultimately show ?thesis by simp
qed

lemma tdk_description_other_metas:
  "attr_safe pageDescription \<Longrightarrow> nm \<noteq> ''description'' \<Longrightarrow>
   map attribs_of (metas nm (nodes (tdk_description parse pageDescription d))) =
     map attribs_of (metas nm (nodes d))"
  by (simp add: tdk_description_def nodes_on_nodes)
     (simp add: nodes_def select_append metas_set_attr_other meta_tag_def is_meta_named_def)

subsection \<open>The keywords block\<close>

lemma tdk_keywords_titles: "titles (nodes (tdk_keywords d)) = titles (nodes d)"
  by (simp add: tdk_keywords_def nodes_def select_append meta_tag_def)

lemma tdk_keywords_other_metas:
  "nm \<noteq> ''keywords'' \<Longrightarrow> metas nm (nodes (tdk_keywords d)) = metas nm (nodes d)"
  by (simp add: tdk_keywords_def nodes_def select_append meta_tag_def is_meta_named_def)

lemma tdk_keywords_new:
  "metas ''keywords'' (nodes d) = [] \<Longrightarrow>
   head (tdk_keywords d) =
     head d @ [meta_tag ''keywords'' ''Cloudflare, security, WAF, protection''] \<and>
   body (tdk_keywords d) = body d \<and>
   metas ''keywords'' (nodes (tdk_keywords d)) =
     [meta_tag ''keywords'' ''Cloudflare, security, WAF, protection'']"
  by (simp add: tdk_keywords_def nodes_def select_append meta_tag_def is_meta_named_def)

lemma tdk_keywords_present: "metas ''keywords'' (nodes d) \<noteq> [] \<Longrightarrow> tdk_keywords d = d"
  by (simp add: tdk_keywords_def)

lemma tdk_keywords_head:
  "head (tdk_keywords d) = head d \<or>
   head (tdk_keywords d) =
     head d @ [meta_tag ''keywords'' ''Cloudflare, security, WAF, protection'']"
  by (simp add: tdk_keywords_def)

lemma tdk_keywords_body: "body (tdk_keywords d) = body d"
  by (simp add: tdk_keywords_def)

subsection \<open>The lookup\<close>

lemma translate_entry:
  assumes "(directory = ''block'' \<and> blockPageTranslations tr tp = Some e) \<or>
           (directory = ''error'' \<and> errorPageTranslations tr tp = Some e) \<or>
           (directory = ''challenge'' \<and> challengePageTranslations tr tp = Some e)"
  shows "translate tr directory tp = (title e, message e)"
  using assms by (elim disjE conjE) (simp_all add: translate_def)

lemma translate_no_entry:
  assumes "\<not> has_entry tr directory tp"
  shows "translate tr directory tp = ([], [])"
proof -
  from assms have "\<not> (directory = ''block'' \<and> blockPageTranslations tr tp \<noteq> None)"
    and "\<not> (directory = ''error'' \<and> errorPageTranslations tr tp \<noteq> None)"
    and "\<not> (directory = ''challenge'' \<and> challengePageTranslations tr tp \<noteq> None)"
    unfolding has_entry_def by blast+
  then show ?thesis
    unfolding translate_def by (simp only: if_False)
qed

lemma updateTDK_steps:
  "path_key filePath = Some (directory, tp) \<Longrightarrow>
   translate tr directory tp = (pageTitle, pageDescription) \<Longrightarrow>
   updateTDK parse tr filePath d =
     tdk_keywords (tdk_description parse pageDescription (tdk_title pageTitle d))"
  by (simp add: updateTDK_def)

section \<open>The path key: proofs\<close>

lemma findIndex_None: "findIndex P xs = None \<longleftrightarrow> (\<forall>x\<in>set xs. \<not> P x)"
  by (induction xs) auto

lemma findIndex_first:
  "\<forall>x\<in>set pre. \<not> P x \<Longrightarrow> P y \<Longrightarrow> findIndex P (pre @ y # post) = Some (length pre)"
  by (induction pre) auto

lemma findIndex_Some:
  "findIndex P xs = Some i \<Longrightarrow>
   \<exists>pre y post. xs = pre @ y # post \<and> length pre = i \<and> P y \<and> (\<forall>x\<in>set pre. \<not> P x)"
proof (induction xs arbitrary: i)
  case Nil
  then show ?case by simp
next
  case (Cons x xs)
  show ?case
  proof (cases "P x")
    case True
    with Cons.prems have "i = 0" by simp
    with True show ?thesis by (intro exI [of _ "[]"]) auto
  next
    case False
    with Cons.prems obtain j where j: "findIndex P xs = Some j" and i: "i = Suc j"
      by auto
    from Cons.IH [OF j] obtain pre y post
      where "xs = pre @ y # post" "length pre = j" "P y" "\<forall>x\<in>set pre. \<not> P x"
      by blast
    with False i show ?thesis
      by (intro exI [of _ "x # pre"]) auto
  qed
qed

lemma path_key_found:
  assumes "split_path filePath = pre @ ''cf'' # a # b # post" and "''cf'' \<notin> set pre"
  shows "path_key filePath = Some (a, b)"
proof -
  from assms(2) have "findIndex (\<lambda>part. part = ''cf'') (pre @ ''cf'' # a # b # post) =
      Some (length pre)"
    by (intro findIndex_first) auto
  with assms(1) show ?thesis
    by (simp add: path_key_def Let_def nth_append)
qed

lemma path_key_no_marker:
  assumes "''cf'' \<notin> set (split_path filePath)"
  shows "path_key filePath = None"
proof -
  from assms have "findIndex (\<lambda>part. part = ''cf'') (split_path filePath) = None"
    by (auto simp: findIndex_None)
  then show ?thesis by (simp add: path_key_def Let_def)
qed

lemma path_key_short:
  assumes "split_path filePath = pre @ ''cf'' # post" and "''cf'' \<notin> set pre"
    and "length post < 2"
  shows "path_key filePath = None"
proof -
  from assms(2) have "findIndex (\<lambda>part. part = ''cf'') (pre @ ''cf'' # post) = Some (length pre)"
    by (intro findIndex_first) auto
  with assms(1,3) show ?thesis
    by (simp add: path_key_def Let_def)
qed

lemma path_key_Some:
  assumes "path_key filePath = Some (a, b)"
  shows "\<exists>pre post. split_path filePath = pre @ ''cf'' # a # b # post \<and> ''cf'' \<notin> set pre"
proof -
  from assms obtain i where i: "findIndex (\<lambda>part. part = ''cf'') (split_path filePath) = Some i"
    and len: "i + 2 < length (split_path filePath)"
    and a: "a = split_path filePath ! (i + 1)" and b: "b = split_path filePath ! (i + 2)"
    by (auto simp: path_key_def Let_def split: option.splits if_splits)
  from findIndex_Some [OF i] obtain pre rest
    where sp: "split_path filePath = pre @ ''cf'' # rest" and lp: "length pre = i"
      and np: "''cf'' \<notin> set pre"
    by blast
  from len sp lp have "2 \<le> length rest" by simp
  then obtain x y post where rest: "rest = x # y # post"
    by (cases rest; cases "tl rest") auto
  from a b sp lp rest have "a = x" "b = y"
    by (simp_all add: nth_append)
  with sp rest np show ?thesis by auto
qed

section \<open>Metadata injection: the claims\<close>

lemma length_titles_set_title_text:
  "length (titles (set_title_text s ns)) \<le> length (titles ns)"
  by (induction s ns rule: set_title_text.induct) (auto simp: select_append)

lemma length_titles_set_attr: "length (titles (set_attr P k v ns)) = length (titles ns)"
  by (induction P k v ns rule: set_attr.induct) (auto simp: select_append)

lemma tdk_title_length: "length (titles (nodes (tdk_title pageTitle d))) \<le> length (titles (nodes d))"
proof -
  have "length (titles (set_title_text s (head d))) + length (titles (set_title_text s (body d)))
        \<le> length (titles (head d)) + length (titles (body d))" for s
    using length_titles_set_title_text [of s "head d"] length_titles_set_title_text [of s "body d"]
    by linarith
  then show ?thesis
    by (simp add: tdk_title_def nodes_on_nodes) (simp add: nodes_def select_append)
qed

lemma tdk_description_length:
  "attr_safe pageDescription \<Longrightarrow>
   length (titles (nodes (tdk_description parse pageDescription d))) = length (titles (nodes d))"
  by (simp add: tdk_description_def nodes_on_nodes)
     (simp add: nodes_def select_append length_titles_set_attr meta_tag_def)

lemma updateTDK_no_entry:
  assumes "path_key filePath = Some (directory, tp)" and "\<not> has_entry tr directory tp"
  shows "updateTDK parse tr filePath d = tdk_keywords d"
proof -
  from assms(2) have "translate tr directory tp = ([], [])"
    by (rule translate_no_entry)
  with assms(1) show ?thesis
    by (simp add: updateTDK_steps tdk_title_def tdk_description_def)
qed

text \<open>
  Claim C6.  When the path has no piece \<^verbatim>\<open>cf\<close>, or fewer than two pieces after the
  first one, the metadata step returns the document as it was.  When the two pieces
  after the marker match no table entry, the title elements and the description meta
  tags of the document are the former ones, the body is untouched, and the head is the
  former head, with at most the default keywords tag added at its end.
\<close>

theorem updateTDK_no_match_unchanged:
  "(''cf'' \<notin> set (split_path filePath) \<longrightarrow> updateTDK parse tr filePath d = d) \<and>
   (\<forall>pre post. split_path filePath = pre @ ''cf'' # post \<and> ''cf'' \<notin> set pre \<and> length post < 2 \<longrightarrow>
        updateTDK parse tr filePath d = d) \<and>
   (\<forall>pre directory tp post.
        split_path filePath = pre @ ''cf'' # directory # tp # post \<and> ''cf'' \<notin> set pre \<and>
        \<not> has_entry tr directory tp \<longrightarrow>
        titles (nodes (updateTDK parse tr filePath d)) = titles (nodes d) \<and>
        metas ''description'' (nodes (updateTDK parse tr filePath d)) =
          metas ''description'' (nodes d) \<and>
        body (updateTDK parse tr filePath d) = body d \<and>
        (head (updateTDK parse tr filePath d) = head d \<or>
         head (updateTDK parse tr filePath d) =
           head d @ [meta_tag ''keywords'' ''Cloudflare, security, WAF, protection'']))"
proof (intro conjI allI impI)
  assume "''cf'' \<notin> set (split_path filePath)"
  then show "updateTDK parse tr filePath d = d"
    by (simp add: updateTDK_def path_key_no_marker)
next
  fix pre post
  assume "split_path filePath = pre @ ''cf'' # post \<and> ''cf'' \<notin> set pre \<and> length post < 2"
  then have "path_key filePath = None"
    using path_key_short by blast
  then show "updateTDK parse tr filePath d = d"
    by (simp add: updateTDK_def)
next
  fix pre directory tp post
  assume a: "split_path filePath = pre @ ''cf'' # directory # tp # post \<and> ''cf'' \<notin> set pre \<and>
        \<not> has_entry tr directory tp"
  then have k: "path_key filePath = Some (directory, tp)"
    using path_key_found by blast
  from a have "\<not> has_entry tr directory tp"
    by simp
  with k have u: "updateTDK parse tr filePath d = tdk_keywords d"
    by (rule updateTDK_no_entry)
  show "titles (nodes (updateTDK parse tr filePath d)) = titles (nodes d)"
    by (simp add: u tdk_keywords_titles)
  show "metas ''description'' (nodes (updateTDK parse tr filePath d)) =
          metas ''description'' (nodes d)"
    by (simp add: u tdk_keywords_other_metas)
  show "body (updateTDK parse tr filePath d) = body d"
    by (simp add: u tdk_keywords_body)
  show "head (updateTDK parse tr filePath d) = head d \<or>
         head (updateTDK parse tr filePath d) =
           head d @ [meta_tag ''keywords'' ''Cloudflare, security, WAF, protection'']"
    using tdk_keywords_head [of d] by (simp add: u)
qed

theorem updateTDK_no_match_unchanged_witness:
  "updateTDK (\<lambda>s. []) example_tables ''out/index.html''
     \<lparr>head = [Element ''title'' [] [Text ''Old''],
              Element ''meta'' [(''name'', ''description''), (''content'', ''old'')] []],
      body = [Element ''p'' [] [Text ''x'']]\<rparr>
   = \<lparr>head = [Element ''title'' [] [Text ''Old''],
              Element ''meta'' [(''name'', ''description''), (''content'', ''old'')] []],
      body = [Element ''p'' [] [Text ''x'']]\<rparr> \<and>
   updateTDK (\<lambda>s. []) example_tables ''out/cf/index.html''
     \<lparr>head = [Element ''title'' [] [Text ''Old''],
              Element ''meta'' [(''name'', ''description''), (''content'', ''old'')] []],
      body = [Element ''p'' [] [Text ''x'']]\<rparr>
   = \<lparr>head = [Element ''title'' [] [Text ''Old''],
              Element ''meta'' [(''name'', ''description''), (''content'', ''old'')] []],
      body = [Element ''p'' [] [Text ''x'']]\<rparr> \<and>
   titles (nodes (updateTDK (\<lambda>s. []) example_tables ''out/cf/block/nosuch/index.html''
     \<lparr>head = [Element ''title'' [] [Text ''Old''],
              Element ''meta'' [(''name'', ''description''), (''content'', ''old'')] []],
      body = [Element ''p'' [] [Text ''x'']]\<rparr>))
   = [Element ''title'' [] [Text ''Old'']] \<and>
   metas ''description'' (nodes (updateTDK (\<lambda>s. []) example_tables
     ''out/cf/block/nosuch/index.html''
     \<lparr>head = [Element ''title'' [] [Text ''Old''],
              Element ''meta'' [(''name'', ''description''), (''content'', ''old'')] []],
      body = [Element ''p'' [] [Text ''x'']]\<rparr>))
   = [Element ''meta'' [(''name'', ''description''), (''content'', ''old'')] []]"
proof -
  let ?D = "\<lparr>head = [Element ''title'' [] [Text ''Old''],
              Element ''meta'' [(''name'', ''description''), (''content'', ''old'')] []],
      body = [Element ''p'' [] [Text ''x'']]\<rparr>"
  let ?P = "\<lambda>s::string. [] :: node list"
  have "''cf'' \<notin> set (split_path ''out/index.html'')"
    by simp
  with updateTDK_no_match_unchanged [of "''out/index.html''" ?P example_tables ?D]
  have r1: "updateTDK ?P example_tables ''out/index.html'' ?D = ?D"
    by blast
  have "split_path ''out/cf/index.html'' = [''out''] @ ''cf'' # [''index.html''] \<and>
        ''cf'' \<notin> set [''out''] \<and> length [''index.html''] < 2"
    by simp
  with updateTDK_no_match_unchanged [of "''out/cf/index.html''" ?P example_tables ?D]
  have r2: "updateTDK ?P example_tables ''out/cf/index.html'' ?D = ?D"
    by blast
  have "split_path ''out/cf/block/nosuch/index.html'' =
          [''out''] @ ''cf'' # ''block'' # ''nosuch'' # [''index.html''] \<and>
        ''cf'' \<notin> set [''out''] \<and> \<not> has_entry example_tables ''block'' ''nosuch''"
    by (simp add: has_entry_def example_tables_def)
  with updateTDK_no_match_unchanged
    [of "''out/cf/block/nosuch/index.html''" ?P example_tables ?D]
  have r3: "titles (nodes (updateTDK ?P example_tables ''out/cf/block/nosuch/index.html'' ?D)) =
          titles (nodes ?D) \<and>
        metas ''description''
          (nodes (updateTDK ?P example_tables ''out/cf/block/nosuch/index.html'' ?D)) =
          metas ''description'' (nodes ?D)"
    by blast
  from r1 r2 r3 show ?thesis
    by (simp add: nodes_def is_meta_named_def)
qed

text \<open>
  Claim C1, as stated, fails on a document without a title element: the path
  \<^verbatim>\<open>out/cf/block/ip/index.html\<close> has the marker, the category \<^verbatim>\<open>block\<close> and the
  type \<^verbatim>\<open>ip\<close>, which is a key of the block table, and yet after the step (and after
  the whole transform) the document has no title element, so its title text is empty
  instead of the translated title followed by \<^verbatim>\<open> - Cloudflare\<close>.
\<close>

theorem updateTDK_translated_counterexample:
  "split_path ''out/cf/block/ip/index.html'' = [''out'', ''cf'', ''block'', ''ip'', ''index.html''] \<and>
   blockPageTranslations example_tables ''ip'' =
     Some \<lparr>title = ''Access denied'', message = ''Your IP address is blocked''\<rparr> \<and>
   titles (nodes (updateTDK (\<lambda>s. []) example_tables ''out/cf/block/ip/index.html''
     \<lparr>head = [], body = [Element ''p'' [] [Text ''x'']]\<rparr>)) = [] \<and>
   text_of (titles (nodes (updateTDK (\<lambda>s. []) example_tables ''out/cf/block/ip/index.html''
     \<lparr>head = [], body = [Element ''p'' [] [Text ''x'']]\<rparr>))) \<noteq> ''Access denied - Cloudflare'' \<and>
   text_of (titles (nodes (fst (transform example_env ''out/cf/block/ip/index.html''
     \<lparr>head = [], body = [Element ''p'' [] [Text ''x'']]\<rparr>)))) \<noteq> ''Access denied - Cloudflare''"
  by (simp add: updateTDK_def path_key_def translate_def example_tables_def tdk_title_def
        tdk_description_def tdk_keywords_def on_nodes_def nodes_def is_meta_named_def
        attr_safe_def meta_tag_def transform_def example_env_def normalizePreloads_def
        addCloudflareMetaTags_def manifest_version_def platform_nodes_def
        moveScriptsToBodyBottom_def is_preload_link_def manifest_warning_def Let_def)

text \<open>
  Claim C1, amended.  Take a path whose first piece \<^verbatim>\<open>cf\<close> is followed by a category
  and a type that is a key of the table of that category, with a non-empty title and a
  non-empty message that has no character special to attribute markup.  After the step
  \<^item> every title element of the document has the single text child made of the translated
    title followed by \<^verbatim>\<open> - Cloudflare\<close> (a document without a title element gets none);
  \<^item> the document has a description meta tag, and the content of every description meta
    tag is the translated message;
  \<^item> if the document had no description meta tag, the only one is the new tag, which
    stands in the head after the former children of the head (only the default
    keywords tag can follow it);
  \<^item> if it had one, none of them inside a title element, the description meta tags are
    the former ones with the content overwritten.
\<close>

theorem updateTDK_translated:
  assumes path: "split_path filePath = pre @ ''cf'' # directory # tp # post" "''cf'' \<notin> set pre"
    and entry: "(directory = ''block'' \<and> blockPageTranslations tr tp = Some e) \<or>
                (directory = ''error'' \<and> errorPageTranslations tr tp = Some e) \<or>
                (directory = ''challenge'' \<and> challengePageTranslations tr tp = Some e)"
    and plain: "title e \<noteq> []" "message e \<noteq> []" "attr_safe (message e)"
  shows "list_all (\<lambda>n. children n = [Text (title e @ '' - Cloudflare'')])
           (titles (nodes (updateTDK parse tr filePath d))) \<and>
         metas ''description'' (nodes (updateTDK parse tr filePath d)) \<noteq> [] \<and>
         list_all (\<lambda>n. attr n ''content'' = Some (message e))
           (metas ''description'' (nodes (updateTDK parse tr filePath d))) \<and>
         (metas ''description'' (nodes d) = [] \<longrightarrow>
            metas ''description'' (nodes (updateTDK parse tr filePath d)) =
              [meta_tag ''description'' (message e)] \<and>
            (\<exists>rest. head (updateTDK parse tr filePath d) =
                 set_title_text (title e @ '' - Cloudflare'') (head d) @
                 meta_tag ''description'' (message e) # rest \<and>
               (rest = [] \<or>
                rest = [meta_tag ''keywords'' ''Cloudflare, security, WAF, protection'']))) \<and>
         (metas ''description'' (nodes d) \<noteq> [] \<and>
          list_all (\<lambda>n. metas ''description'' (children n) = []) (titles (nodes d)) \<longrightarrow>
            map attribs_of (metas ''description'' (nodes (updateTDK parse tr filePath d))) =
              map (AList.update ''content'' (message e))
                (map attribs_of (metas ''description'' (nodes d))))"
proof -
  let ?T = "title e" and ?M = "message e"
  let ?d1 = "tdk_title ?T d"
  let ?d2 = "tdk_description parse ?M ?d1"
  have k: "path_key filePath = Some (directory, tp)"
    using path by (rule path_key_found)
  have u: "updateTDK parse tr filePath d = tdk_keywords ?d2"
    using k translate_entry [OF entry] by (rule updateTDK_steps)
  have c1: "list_all (\<lambda>n. children n = [Text (?T @ '' - Cloudflare'')])
           (titles (nodes (updateTDK parse tr filePath d)))"
    by (simp add: u tdk_keywords_titles tdk_description_titles tdk_title_rewrites plain)
  have m: "metas ''description'' (nodes (updateTDK parse tr filePath d)) =
           metas ''description'' (nodes ?d2)"
    by (simp add: u tdk_keywords_other_metas)
  have c23: "metas ''description'' (nodes (updateTDK parse tr filePath d)) \<noteq> [] \<and>
         list_all (\<lambda>n. attr n ''content'' = Some ?M)
           (metas ''description'' (nodes (updateTDK parse tr filePath d)))"
    unfolding m using plain(2,3) by (rule tdk_description_content)
  have c4: "metas ''description'' (nodes (updateTDK parse tr filePath d)) =
              [meta_tag ''description'' ?M] \<and>
            (\<exists>rest. head (updateTDK parse tr filePath d) =
                 set_title_text (?T @ '' - Cloudflare'') (head d) @
                 meta_tag ''description'' ?M # rest \<and>
               (rest = [] \<or>
                rest = [meta_tag ''keywords'' ''Cloudflare, security, WAF, protection'']))"
    if none: "metas ''description'' (nodes d) = []"
  proof -
    have "metas ''description'' (nodes ?d1) = []"
      using none by (rule tdk_title_metas_empty)
    from tdk_description_new [OF plain(2,3) this, of parse]
    have h2: "head ?d2 = head ?d1 @ [meta_tag ''description'' ?M]"
      and m2: "metas ''description'' (nodes ?d2) = [meta_tag ''description'' ?M]"
      by simp_all
    have h1: "head ?d1 = set_title_text (?T @ '' - Cloudflare'') (head d)"
      by (simp add: tdk_title_head plain)
    from tdk_keywords_head [of ?d2]
    have "\<exists>rest. head (tdk_keywords ?d2) =
             set_title_text (?T @ '' - Cloudflare'') (head d) @ meta_tag ''description'' ?M # rest \<and>
             (rest = [] \<or> rest = [meta_tag ''keywords'' ''Cloudflare, security, WAF, protection''])"
      by (auto simp: h2 h1)
    with m m2 u show ?thesis by simp
  qed
  have c5: "map attribs_of (metas ''description'' (nodes (updateTDK parse tr filePath d))) =
              map (AList.update ''content'' ?M) (map attribs_of (metas ''description'' (nodes d)))"
    if some: "metas ''description'' (nodes d) \<noteq> []"
      and out: "list_all (\<lambda>n. metas ''description'' (children n) = []) (titles (nodes d))"
  proof -
    have same: "map attribs_of (metas ''description'' (nodes ?d1)) =
                map attribs_of (metas ''description'' (nodes d))"
      using out by (rule tdk_title_metas)
    with some have "metas ''description'' (nodes ?d1) \<noteq> []"
      by (metis map_is_Nil_conv)
    from tdk_description_overwrites [OF plain(2) this, of parse] same m
    show ?thesis by simp
  qed
  from c1 c23 c4 c5 show ?thesis by blast
qed

theorem updateTDK_translated_witness:
  "updateTDK (\<lambda>s. []) example_tables ''out/cf/block/ip/index.html''
     \<lparr>head = [Element ''title'' [] [Text ''Old'']],
      body = [Element ''p'' [] [Text ''x'']]\<rparr>
   = \<lparr>head = [Element ''title'' [] [Text ''Access denied - Cloudflare''],
              Element ''meta''
                [(''name'', ''description''), (''content'', ''Your IP address is blocked'')] [],
              Element ''meta''
                [(''name'', ''keywords''),
                 (''content'', ''Cloudflare, security, WAF, protection'')] []],
      body = [Element ''p'' [] [Text ''x'']]\<rparr> \<and>
   list_all (\<lambda>n. children n = [Text ''Access denied - Cloudflare''])
     (titles (nodes (updateTDK (\<lambda>s. []) example_tables ''out/cf/block/ip/index.html''
        \<lparr>head = [Element ''title'' [] [Text ''Old'']],
         body = [Element ''p'' [] [Text ''x'']]\<rparr>))) \<and>
   list_all (\<lambda>n. attr n ''content'' = Some ''Your IP address is blocked'')
     (metas ''description'' (nodes (updateTDK (\<lambda>s. []) example_tables
        ''out/cf/block/ip/index.html''
        \<lparr>head = [Element ''title'' [] [Text ''Old'']],
         body = [Element ''p'' [] [Text ''x'']]\<rparr>)))"
proof -
  let ?D = "\<lparr>head = [Element ''title'' [] [Text ''Old'']],
      body = [Element ''p'' [] [Text ''x'']]\<rparr>"
  let ?e = "\<lparr>title = ''Access denied'', message = ''Your IP address is blocked''\<rparr>"
  have p: "split_path ''out/cf/block/ip/index.html'' =
             [''out''] @ ''cf'' # ''block'' # ''ip'' # [''index.html'']"
    by simp
  have n: "''cf'' \<notin> set [''out'']"
    by simp
  have en: "(''block'' = ''block'' \<and> blockPageTranslations example_tables ''ip'' = Some ?e) \<or>
            (''block'' = ''error'' \<and> errorPageTranslations example_tables ''ip'' = Some ?e) \<or>
            (''block'' = ''challenge'' \<and> challengePageTranslations example_tables ''ip'' = Some ?e)"
    by (simp add: example_tables_def)
  have pl: "title ?e \<noteq> []" "message ?e \<noteq> []" "attr_safe (message ?e)"
    by (simp_all add: attr_safe_def)
  from updateTDK_translated [OF p n en pl, of "\<lambda>s. []" ?D]
  have "list_all (\<lambda>n. children n = [Text ''Access denied - Cloudflare''])
     (titles (nodes (updateTDK (\<lambda>s. []) example_tables ''out/cf/block/ip/index.html'' ?D))) \<and>
   list_all (\<lambda>n. attr n ''content'' = Some ''Your IP address is blocked'')
     (metas ''description'' (nodes (updateTDK (\<lambda>s. []) example_tables
        ''out/cf/block/ip/index.html'' ?D)))"
    by simp
  moreover have "updateTDK (\<lambda>s. []) example_tables ''out/cf/block/ip/index.html'' ?D
   = \<lparr>head = [Element ''title'' [] [Text ''Access denied - Cloudflare''],
              Element ''meta''
                [(''name'', ''description''), (''content'', ''Your IP address is blocked'')] [],
              Element ''meta''
                [(''name'', ''keywords''),
                 (''content'', ''Cloudflare, security, WAF, protection'')] []],
      body = [Element ''p'' [] [Text ''x'']]\<rparr>"
    by (simp add: updateTDK_def path_key_def translate_def example_tables_def tdk_title_def
        tdk_description_def tdk_keywords_def on_nodes_def nodes_def is_meta_named_def
        attr_safe_def meta_tag_def)
  ultimately show ?thesis by blast
qed

text \<open>
  Claim C5, as stated, fails for a file whose path has no piece \<^verbatim>\<open>cf\<close>: the function
  returns before the keywords block, so a document without a keywords meta tag still has
  none after the step, and none after the whole transform.
\<close>

theorem keywords_default_counterexample:
  "''cf'' \<notin> set (split_path ''out/index.html'') \<and>
   metas ''keywords'' (nodes \<lparr>head = [Element ''title'' [] [Text ''Home'']], body = []\<rparr>) = [] \<and>
   metas ''keywords'' (nodes (updateTDK (\<lambda>s. []) example_tables ''out/index.html''
     \<lparr>head = [Element ''title'' [] [Text ''Home'']], body = []\<rparr>)) = [] \<and>
   metas ''keywords'' (nodes (fst (transform example_env ''out/index.html''
     \<lparr>head = [Element ''title'' [] [Text ''Home'']], body = []\<rparr>))) = []"
  by (simp add: updateTDK_def path_key_def nodes_def is_meta_named_def transform_def
        example_env_def normalizePreloads_def moveScriptsToBodyBottom_def is_preload_link_def
        Let_def)

text \<open>
  Claim C5, amended.  For a path whose first piece \<^verbatim>\<open>cf\<close> is followed by at least two
  pieces, whether or not they match a table entry (the message of a matching entry
  having no character special to attribute markup):
  \<^item> a document without a keywords meta tag has exactly one afterwards, the tag with the
    default content, and it is the last child of the head;
  \<^item> a document with keywords meta tags, none of them inside a title element, has the
    same keywords meta tags afterwards, with the same attributes.
\<close>

theorem keywords_default:
  assumes path: "split_path filePath = pre @ ''cf'' # directory # tp # post" "''cf'' \<notin> set pre"
    and plain: "attr_safe (snd (translate tr directory tp))"
  shows "(metas ''keywords'' (nodes d) = [] \<longrightarrow>
            metas ''keywords'' (nodes (updateTDK parse tr filePath d)) =
              [meta_tag ''keywords'' ''Cloudflare, security, WAF, protection''] \<and>
            (\<exists>front. head (updateTDK parse tr filePath d) =
               front @ [meta_tag ''keywords'' ''Cloudflare, security, WAF, protection''])) \<and>
         (metas ''keywords'' (nodes d) \<noteq> [] \<and>
          list_all (\<lambda>n. metas ''keywords'' (children n) = []) (titles (nodes d)) \<longrightarrow>
            map attribs_of (metas ''keywords'' (nodes (updateTDK parse tr filePath d))) =
              map attribs_of (metas ''keywords'' (nodes d)))"
proof -
  obtain T M where tm: "translate tr directory tp = (T, M)"
    by (cases "translate tr directory tp")
  with plain have safe: "attr_safe M" by simp
  let ?d1 = "tdk_title T d"
  let ?d2 = "tdk_description parse M ?d1"
  have k: "path_key filePath = Some (directory, tp)"
    using path by (rule path_key_found)
  have u: "updateTDK parse tr filePath d = tdk_keywords ?d2"
    using k tm by (rule updateTDK_steps)
  have d21: "map attribs_of (metas ''keywords'' (nodes ?d2)) =
             map attribs_of (metas ''keywords'' (nodes ?d1))"
    using safe by (intro tdk_description_other_metas) simp_all
  have a: "metas ''keywords'' (nodes (updateTDK parse tr filePath d)) =
              [meta_tag ''keywords'' ''Cloudflare, security, WAF, protection''] \<and>
            (\<exists>front. head (updateTDK parse tr filePath d) =
               front @ [meta_tag ''keywords'' ''Cloudflare, security, WAF, protection''])"
    if none: "metas ''keywords'' (nodes d) = []"
  proof -
    have "metas ''keywords'' (nodes ?d1) = []"
      using none by (rule tdk_title_metas_empty)
    with d21 have "metas ''keywords'' (nodes ?d2) = []"
      by simp
    from tdk_keywords_new [OF this] show ?thesis
      by (simp add: u)
  qed
  have b: "map attribs_of (metas ''keywords'' (nodes (updateTDK parse tr filePath d))) =
              map attribs_of (metas ''keywords'' (nodes d))"
    if some: "metas ''keywords'' (nodes d) \<noteq> []"
      and out: "list_all (\<lambda>n. metas ''keywords'' (children n) = []) (titles (nodes d))"
  proof -
    have d10: "map attribs_of (metas ''keywords'' (nodes ?d1)) =
               map attribs_of (metas ''keywords'' (nodes d))"
      using out by (rule tdk_title_metas)
    with d21 some have "metas ''keywords'' (nodes ?d2) \<noteq> []"
      by (metis map_is_Nil_conv)
    then have "tdk_keywords ?d2 = ?d2"
      by (rule tdk_keywords_present)
    with d21 d10 show ?thesis
      by (simp add: u)
  qed
  from a b show ?thesis by blast
qed

theorem keywords_default_witness:
  "metas ''keywords'' (nodes (updateTDK (\<lambda>s. []) example_tables ''out/cf/error/404/index.html''
      \<lparr>head = [Element ''title'' [] [Text ''Home'']], body = []\<rparr>)) =
     [Element ''meta''
        [(''name'', ''keywords''), (''content'', ''Cloudflare, security, WAF, protection'')] []] \<and>
   map attribs_of (metas ''keywords'' (nodes (updateTDK (\<lambda>s. []) example_tables
      ''out/cf/block/ip/index.html''
      \<lparr>head = [Element ''title'' [] [Text ''Home''],
               Element ''meta'' [(''name'', ''keywords''), (''content'', ''mine'')] []],
       body = []\<rparr>))) =
     [[(''name'', ''keywords''), (''content'', ''mine'')]]"
proof -
  let ?A = "\<lparr>head = [Element ''title'' [] [Text ''Home'']], body = []\<rparr>"
  let ?B = "\<lparr>head = [Element ''title'' [] [Text ''Home''],
               Element ''meta'' [(''name'', ''keywords''), (''content'', ''mine'')] []],
       body = []\<rparr>"
  have p1: "split_path ''out/cf/error/404/index.html'' =
              [''out''] @ ''cf'' # ''error'' # ''404'' # [''index.html'']"
    by simp
  have p2: "split_path ''out/cf/block/ip/index.html'' =
              [''out''] @ ''cf'' # ''block'' # ''ip'' # [''index.html'']"
    by simp
  have n: "''cf'' \<notin> set [''out'']"
    by simp
  have s1: "attr_safe (snd (translate example_tables ''error'' ''404''))"
    by (simp add: translate_def example_tables_def attr_safe_def)
  have s2: "attr_safe (snd (translate example_tables ''block'' ''ip''))"
    by (simp add: translate_def example_tables_def attr_safe_def)
  have "metas ''keywords'' (nodes ?A) = []"
    by (simp add: nodes_def is_meta_named_def)
  with keywords_default [OF p1 n s1, of ?A "\<lambda>s. []"]
  have r1: "metas ''keywords'' (nodes (updateTDK (\<lambda>s. []) example_tables
              ''out/cf/error/404/index.html'' ?A)) =
            [meta_tag ''keywords'' ''Cloudflare, security, WAF, protection'']"
    by blast
  have "metas ''keywords'' (nodes ?B) \<noteq> [] \<and>
        list_all (\<lambda>n. metas ''keywords'' (children n) = []) (titles (nodes ?B))"
    by (simp add: nodes_def is_meta_named_def)
  with keywords_default [OF p2 n s2, of ?B "\<lambda>s. []"]
  have r2: "map attribs_of (metas ''keywords'' (nodes (updateTDK (\<lambda>s. []) example_tables
              ''out/cf/block/ip/index.html'' ?B))) =
            map attribs_of (metas ''keywords'' (nodes ?B))"
    by blast
  from r1 r2 show ?thesis
    by (simp add: meta_tag_def nodes_def is_meta_named_def)
qed

text \<open>
  With a message that has no character special to attribute markup, the metadata step
  never adds a title element: the document has at most as many title elements
  afterwards as before, and none if it had none, also for a path whose category and type
  match a table entry.  When they match an entry with a non-empty title, every title
  element of the document, in the head or in the body, has the new text as its only
  child.
\<close>

lemma updateTDK_creates_no_title:
  assumes plain: "\<forall>directory tp. path_key filePath = Some (directory, tp) \<longrightarrow>
                    attr_safe (snd (translate tr directory tp))"
  shows "length (titles (nodes (updateTDK parse tr filePath d))) \<le> length (titles (nodes d)) \<and>
         (titles (nodes d) = [] \<longrightarrow> titles (nodes (updateTDK parse tr filePath d)) = []) \<and>
         (\<forall>pre directory tp post e.
            split_path filePath = pre @ ''cf'' # directory # tp # post \<and> ''cf'' \<notin> set pre \<and>
            ((directory = ''block'' \<and> blockPageTranslations tr tp = Some e) \<or>
             (directory = ''error'' \<and> errorPageTranslations tr tp = Some e) \<or>
             (directory = ''challenge'' \<and> challengePageTranslations tr tp = Some e)) \<and>
            title e \<noteq> [] \<longrightarrow>
            list_all (\<lambda>n. children n = [Text (title e @ '' - Cloudflare'')])
              (titles (nodes (updateTDK parse tr filePath d))))"
proof -
  have len: "length (titles (nodes (updateTDK parse tr filePath d))) \<le> length (titles (nodes d))"
  proof (cases "path_key filePath")
    case None
    then show ?thesis by (simp add: updateTDK_def)
  next
    case (Some key)
    obtain directory tp where key: "key = (directory, tp)"
      by (cases key)
    obtain T M where tm: "translate tr directory tp = (T, M)"
      by (cases "translate tr directory tp")
    from plain Some key tm have safe: "attr_safe M" by simp
    have u: "updateTDK parse tr filePath d = tdk_keywords (tdk_description parse M (tdk_title T d))"
      using Some tm unfolding key by (rule updateTDK_steps)
    show ?thesis
      using tdk_title_length [of T d]
      by (simp add: u tdk_keywords_titles tdk_description_length safe)
  qed
  have all: "list_all (\<lambda>n. children n = [Text (title e @ '' - Cloudflare'')])
              (titles (nodes (updateTDK parse tr filePath d)))"
    if path: "split_path filePath = pre @ ''cf'' # directory # tp # post" "''cf'' \<notin> set pre"
      and entry: "(directory = ''block'' \<and> blockPageTranslations tr tp = Some e) \<or>
             (directory = ''error'' \<and> errorPageTranslations tr tp = Some e) \<or>
             (directory = ''challenge'' \<and> challengePageTranslations tr tp = Some e)"
      and ne: "title e \<noteq> []"
    for pre directory tp post e
  proof -
    have k: "path_key filePath = Some (directory, tp)"
      using path by (rule path_key_found)
    have tm: "translate tr directory tp = (title e, message e)"
      using entry by (rule translate_entry)
    from plain k tm have safe: "attr_safe (message e)" by simp
    have u: "updateTDK parse tr filePath d =
             tdk_keywords (tdk_description parse (message e) (tdk_title (title e) d))"
      using k tm by (rule updateTDK_steps)
    show ?thesis
      by (simp add: u tdk_keywords_titles tdk_description_titles tdk_title_rewrites safe ne)
  qed
  from len have "titles (nodes d) = [] \<longrightarrow> titles (nodes (updateTDK parse tr filePath d)) = []"
    by auto
  with len all show ?thesis by blast
qed

lemma updateTDK_creates_no_title_instance:
  "titles (nodes (updateTDK (\<lambda>s. []) example_tables ''out/cf/block/ip/index.html''
      \<lparr>head = [Element ''meta'' [(''charset'', ''utf-8'')] []],
       body = [Element ''p'' [] [Text ''x'']]\<rparr>)) = [] \<and>
   titles (nodes (updateTDK (\<lambda>s. []) example_tables ''out/cf/block/ip/index.html''
      \<lparr>head = [Element ''title'' [] [Text ''Old'']],
       body = [Element ''svg'' [] [Element ''title'' [] [Text ''Icon'']]]\<rparr>)) =
     [Element ''title'' [] [Text ''Access denied - Cloudflare''],
      Element ''title'' [] [Text ''Access denied - Cloudflare'']]"
proof -
  let ?A = "\<lparr>head = [Element ''meta'' [(''charset'', ''utf-8'')] []],
       body = [Element ''p'' [] [Text ''x'']]\<rparr>"
  have "path_key ''out/cf/block/ip/index.html'' = Some (''block'', ''ip'')"
    by (simp add: path_key_def)
  moreover have "attr_safe (snd (translate example_tables ''block'' ''ip''))"
    by (simp add: translate_def example_tables_def attr_safe_def)
  ultimately have pl: "\<forall>directory tp. path_key ''out/cf/block/ip/index.html'' = Some (directory, tp) \<longrightarrow>
                    attr_safe (snd (translate example_tables directory tp))"
    by simp
  have "titles (nodes ?A) = []"
    by (simp add: nodes_def)
  with updateTDK_creates_no_title [OF pl, of "\<lambda>s. []" ?A]
  have "titles (nodes (updateTDK (\<lambda>s. []) example_tables ''out/cf/block/ip/index.html'' ?A)) = []"
    by blast
  moreover have "titles (nodes (updateTDK (\<lambda>s. []) example_tables ''out/cf/block/ip/index.html''
      \<lparr>head = [Element ''title'' [] [Text ''Old'']],
       body = [Element ''svg'' [] [Element ''title'' [] [Text ''Icon'']]]\<rparr>)) =
     [Element ''title'' [] [Text ''Access denied - Cloudflare''],
      Element ''title'' [] [Text ''Access denied - Cloudflare'']]"
    by (simp add: updateTDK_def path_key_def translate_def example_tables_def tdk_title_def
        tdk_description_def tdk_keywords_def on_nodes_def nodes_def is_meta_named_def
        attr_safe_def meta_tag_def)
  ultimately show ?thesis by blast
qed

text \<open>
  The parser written out above agrees with the nodes that the model takes for markup
  without special characters: the description tag of any message without a double
  quote, the keywords tag, and the platform tags of one build date and version.
\<close>

lemma tokenize_attr_value:
  "CHR 0x22 \<notin> set v \<Longrightarrow>
   tokenize (AttrValueDoubleQuoted n as k acc) (v @ CHR 0x22 # rest) =
     tokenize (AfterAttrValue n (add_attr as k (acc @ v))) rest"
  by (induction v arbitrary: acc) auto

lemma html_fragment_description:
  assumes "CHR 0x22 \<notin> set c"
  shows "html_fragment (meta_html ''description'' c) = [meta_tag ''description'' c]"
proof -
  have "tokenize (Data []) (meta_html ''description'' c) =
        tokenize (AttrValueDoubleQuoted ''meta'' [(''name'', ''description'')] ''content'' [])
          (c @ CHR 0x22 # ''>'')"
    by (simp add: meta_html_def emit_chars_def is_space_def add_attr_def ascii_lower_def)
  also have "\<dots> = tokenize (AfterAttrValue ''meta''
                       (add_attr [(''name'', ''description'')] ''content'' ([] @ c))) ''>''"
    using assms by (rule tokenize_attr_value)
  also have "\<dots> = [StartTag ''meta'' [(''name'', ''description''), (''content'', c)]]"
    by (simp add: emit_chars_def is_space_def add_attr_def ascii_lower_def)
  finally show ?thesis
    by (simp add: html_fragment_def void_element_def meta_tag_def)
qed

lemma html_fragment_keywords:
  "html_fragment (meta_html ''keywords'' ''Cloudflare, security, WAF, protection'') =
     [meta_tag ''keywords'' ''Cloudflare, security, WAF, protection'']"
  by (simp add: html_fragment_def meta_html_def emit_chars_def is_space_def add_attr_def
        ascii_lower_def void_element_def meta_tag_def)

lemma html_fragment_platform:
  "html_fragment (platform_html ''2025-01-01T00:00:00.000Z'' ''1.2.3'') =
     platform_nodes ''2025-01-01T00:00:00.000Z'' ''1.2.3''"
  by (simp add: html_fragment_def platform_html_def platform_nodes_def meta_html_def
        emit_chars_def is_space_def add_attr_def ascii_lower_def void_element_def meta_tag_def)

text \<open>
  Claim C10.  The claim is what the code sets out to do: the title block only rewrites
  the title elements that exist, and the description block, when a description tag
  exists, stores the message as an attribute value.  When none exists, the message is
  spliced into markup without escaping, and that markup is parsed.  For the table entry
  with the message \<^verbatim>\<open>"><title>x</title>\<close> the markup is
  \<^verbatim>\<open><meta name="description" content=""><title>x</title>">\<close>: the double quote ends
  the attribute value, and the parser returns a meta tag with an empty content, a title
  element and a text.  So a document that had no title element has one after the step,
  on a path whose category and type match the entry.
\<close>

theorem updateTDK_title_from_message:
  "split_path ''out/cf/block/ip/index.html'' = [''out'', ''cf'', ''block'', ''ip'', ''index.html''] \<and>
   blockPageTranslations markup_tables ''ip'' =
     Some \<lparr>title = ''Access denied'', message = CHR 0x22 # ''><title>x</title>''\<rparr> \<and>
   html_fragment (meta_html ''description'' (CHR 0x22 # ''><title>x</title>'')) =
     [Element ''meta'' [(''name'', ''description''), (''content'', [])] [],
      Element ''title'' [] [Text ''x''],
      Text [CHR 0x22, CHR ''>'']] \<and>
   titles (nodes \<lparr>head = [], body = [Element ''p'' [] [Text ''hello'']]\<rparr>) = [] \<and>
   titles (nodes (updateTDK html_fragment markup_tables ''out/cf/block/ip/index.html''
      \<lparr>head = [], body = [Element ''p'' [] [Text ''hello'']]\<rparr>)) =
     [Element ''title'' [] [Text ''x'']]"
proof -
  have f: "html_fragment (meta_html ''description'' (CHR 0x22 # ''><title>x</title>'')) =
     [Element ''meta'' [(''name'', ''description''), (''content'', [])] [],
      Element ''title'' [] [Text ''x''],
      Text [CHR 0x22, CHR ''>'']]"
    by (simp add: html_fragment_def meta_html_def emit_chars_def is_space_def add_attr_def
          ascii_lower_def void_element_def)
  have k: "path_key ''out/cf/block/ip/index.html'' = Some (''block'', ''ip'')"
    by (simp add: path_key_def)
  have t: "translate markup_tables ''block'' ''ip'' =
             (''Access denied'', CHR 0x22 # ''><title>x</title>'')"
    by (simp add: translate_def markup_tables_def)
  have u: "updateTDK html_fragment markup_tables ''out/cf/block/ip/index.html''
             \<lparr>head = [], body = [Element ''p'' [] [Text ''hello'']]\<rparr> =
           \<lparr>head = [Element ''meta'' [(''name'', ''description''), (''content'', [])] [],
                    Element ''title'' [] [Text ''x''],
                    Text [CHR 0x22, CHR ''>''],
                    meta_tag ''keywords'' ''Cloudflare, security, WAF, protection''],
            body = [Element ''p'' [] [Text ''hello'']]\<rparr>"
    by (simp add: updateTDK_def k t tdk_title_def tdk_description_def tdk_keywords_def
          on_nodes_def nodes_def is_meta_named_def attr_safe_def f meta_tag_def)
  have b: "blockPageTranslations markup_tables ''ip'' =
     Some \<lparr>title = ''Access denied'', message = CHR 0x22 # ''><title>x</title>''\<rparr>"
    by (simp add: markup_tables_def)
  have s: "split_path ''out/cf/block/ip/index.html'' =
             [''out'', ''cf'', ''block'', ''ip'', ''index.html'']"
    by simp
  have n: "titles (nodes \<lparr>head = [], body = [Element ''p'' [] [Text ''hello'']]\<rparr>) = []"
    by (simp add: nodes_def)
  have r: "titles (nodes (updateTDK html_fragment markup_tables ''out/cf/block/ip/index.html''
      \<lparr>head = [], body = [Element ''p'' [] [Text ''hello'']]\<rparr>)) =
     [Element ''title'' [] [Text ''x'']]"
    by (simp add: u nodes_def meta_tag_def)
  from s b f n r show ?thesis
    by (intro conjI)
qed

section \<open>The type key is a raw path piece\<close>

lemma split_path_nonempty: "split_path p \<noteq> []"
  by (induction p) (auto split: list.splits)

lemma split_path_no_slash: "CHR ''/'' \<notin> set p \<Longrightarrow> split_path p = [p]"
  by (induction p) auto

lemma last_split_path_suffix:
  "suffix s p \<Longrightarrow> CHR ''/'' \<notin> set s \<Longrightarrow> suffix s (last (split_path p))"
proof (induction p)
  case Nil
  then show ?case by simp
next
  case (Cons c cs)
  from Cons.prems(1) consider "s = c # cs" | "suffix s cs"
    by (auto simp: suffix_Cons)
  then show ?case
  proof cases
    case 1
    with Cons.prems(2) have "split_path (c # cs) = [c # cs]"
      by (intro split_path_no_slash) simp
    with 1 show ?thesis by simp
  next
    case 2
    from Cons.IH [OF 2 Cons.prems(2)] have ih: "suffix s (last (split_path cs))" .
    obtain q qs where q: "split_path cs = q # qs"
      using split_path_nonempty [of cs] by (cases "split_path cs") auto
    show ?thesis
    proof (cases "c = CHR ''/''")
      case True
      with ih q show ?thesis by simp
    next
      case False
      with ih q show ?thesis
        by (cases qs) (auto simp: suffix_Cons)
    qed
  qed
qed

text \<open>
  Claim C9.  The type looked up in the tables is the second piece after the first
  \<^verbatim>\<open>cf\<close>, as it stands.  For a file directly in a category directory
  (\<^verbatim>\<open>.../cf/<category>/<name>.html\<close>) that piece is \<^verbatim>\<open><name>.html\<close>; when no table
  key ends in \<^verbatim>\<open>.html\<close> it matches no entry, and the title elements and description
  meta tags stay as they were.  For a file at least one level deeper the piece is the
  name of the directory below the category.  And when no table key ends in
  \<^verbatim>\<open>.html\<close>, an HTML file whose category and type match an entry has at least one
  more piece after the type: it lies below the type directory.
\<close>

theorem type_key_is_raw_segment:
  "(\<forall>pre category name.
      split_path filePath = pre @ [''cf'', category, name @ ''.html''] \<and> ''cf'' \<notin> set pre \<longrightarrow>
      path_key filePath = Some (category, name @ ''.html'') \<and>
      (keys_without_html tr \<longrightarrow>
         \<not> has_entry tr category (name @ ''.html'') \<and>
         titles (nodes (updateTDK parse tr filePath d)) = titles (nodes d) \<and>
         metas ''description'' (nodes (updateTDK parse tr filePath d)) =
           metas ''description'' (nodes d))) \<and>
   (\<forall>pre category tp fname rest.
      split_path filePath = pre @ ''cf'' # category # tp # fname # rest \<and> ''cf'' \<notin> set pre \<longrightarrow>
      path_key filePath = Some (category, tp)) \<and>
   (\<forall>category tp.
      keys_without_html tr \<and> suffix ''.html'' filePath \<and>
      path_key filePath = Some (category, tp) \<and> has_entry tr category tp \<longrightarrow>
      (\<exists>pre post. split_path filePath = pre @ ''cf'' # category # tp # post \<and>
                  ''cf'' \<notin> set pre \<and> post \<noteq> []))"
proof (intro conjI allI impI)
  fix pre category name
  assume a: "split_path filePath = pre @ [''cf'', category, name @ ''.html''] \<and> ''cf'' \<notin> set pre"
  then have sp: "split_path filePath = pre @ ''cf'' # category # (name @ ''.html'') # []"
    and np: "''cf'' \<notin> set pre"
    by simp_all
  from sp np show k: "path_key filePath = Some (category, name @ ''.html'')"
    by (rule path_key_found)
  assume keys: "keys_without_html tr"
  have sfx: "suffix ''.html'' (name @ ''.html'')"
    by (rule suffixI) simp
  from keys have "suffix ''.html'' (name @ ''.html'') \<longrightarrow>
      blockPageTranslations tr (name @ ''.html'') = None \<and>
      errorPageTranslations tr (name @ ''.html'') = None \<and>
      challengePageTranslations tr (name @ ''.html'') = None"
    unfolding keys_without_html_def by (rule spec)
  from this sfx have "blockPageTranslations tr (name @ ''.html'') = None \<and>
      errorPageTranslations tr (name @ ''.html'') = None \<and>
      challengePageTranslations tr (name @ ''.html'') = None"
    by (rule mp)
  then show no: "\<not> has_entry tr category (name @ ''.html'')"
    unfolding has_entry_def by simp
  from k no have u: "updateTDK parse tr filePath d = tdk_keywords d"
    by (rule updateTDK_no_entry)
  show "titles (nodes (updateTDK parse tr filePath d)) = titles (nodes d)"
    by (simp add: u tdk_keywords_titles)
  show "metas ''description'' (nodes (updateTDK parse tr filePath d)) =
           metas ''description'' (nodes d)"
    by (simp add: u tdk_keywords_other_metas)
next
  fix pre category tp fname rest
  assume "split_path filePath = pre @ ''cf'' # category # tp # fname # rest \<and> ''cf'' \<notin> set pre"
  then show "path_key filePath = Some (category, tp)"
    using path_key_found by blast
next
  fix category tp
  assume a: "keys_without_html tr \<and> suffix ''.html'' filePath \<and>
      path_key filePath = Some (category, tp) \<and> has_entry tr category tp"
  then obtain pre post where sp: "split_path filePath = pre @ ''cf'' # category # tp # post"
    and np: "''cf'' \<notin> set pre"
    using path_key_Some by blast
  have "post \<noteq> []"
  proof
    assume "post = []"
    with sp have "last (split_path filePath) = tp" by simp
    moreover from a have "suffix ''.html'' (last (split_path filePath))"
      by (intro last_split_path_suffix) simp_all
    ultimately have sfx: "suffix ''.html'' tp" by simp
    from a have keys: "keys_without_html tr" and he: "has_entry tr category tp"
      by simp_all
    from keys have "suffix ''.html'' tp \<longrightarrow>
        blockPageTranslations tr tp = None \<and> errorPageTranslations tr tp = None \<and>
        challengePageTranslations tr tp = None"
      unfolding keys_without_html_def by (rule spec)
    from this sfx have "blockPageTranslations tr tp = None \<and> errorPageTranslations tr tp = None \<and>
        challengePageTranslations tr tp = None"
      by (rule mp)
    with he show False
      unfolding has_entry_def by simp
  qed
  with sp np show "\<exists>pre post. split_path filePath = pre @ ''cf'' # category # tp # post \<and>
                  ''cf'' \<notin> set pre \<and> post \<noteq> []"
    by blast
qed

lemma example_tables_keys: "keys_without_html example_tables"
  unfolding keys_without_html_def
proof (intro allI impI)
  fix k :: string
  assume "suffix ''.html'' k"
  then have "length ''.html'' \<le> length k"
    by (rule suffix_length_le)
  then have "k \<noteq> ''ip''" and "k \<noteq> ''500''"
    by auto
  then show "blockPageTranslations example_tables k = None \<and>
             errorPageTranslations example_tables k = None \<and>
             challengePageTranslations example_tables k = None"
    by (simp add: example_tables_def)
qed

theorem type_key_is_raw_segment_witness:
  "path_key ''out/cf/block/ip.html'' = Some (''block'', ''ip.html'') \<and>
   \<not> has_entry example_tables ''block'' ''ip.html'' \<and>
   titles (nodes (updateTDK (\<lambda>s. []) example_tables ''out/cf/block/ip.html''
      \<lparr>head = [Element ''title'' [] [Text ''Old'']], body = []\<rparr>)) =
     [Element ''title'' [] [Text ''Old'']] \<and>
   path_key ''out/cf/block/ip/index.html'' = Some (''block'', ''ip'') \<and>
   has_entry example_tables ''block'' ''ip'' \<and>
   (\<exists>pre post. split_path ''out/cf/block/ip/index.html'' = pre @ ''cf'' # ''block'' # ''ip'' # post \<and>
               ''cf'' \<notin> set pre \<and> post \<noteq> [])"
proof -
  let ?D = "\<lparr>head = [Element ''title'' [] [Text ''Old'']], body = []\<rparr>"
  let ?P = "\<lambda>s::string. [] :: node list"
  have "split_path ''out/cf/block/ip.html'' = [''out''] @ [''cf'', ''block'', ''ip'' @ ''.html''] \<and>
        ''cf'' \<notin> set [''out'']"
    by simp
  with type_key_is_raw_segment [of "''out/cf/block/ip.html''" example_tables ?P ?D]
    example_tables_keys
  have r1: "path_key ''out/cf/block/ip.html'' = Some (''block'', ''ip'' @ ''.html'') \<and>
        \<not> has_entry example_tables ''block'' (''ip'' @ ''.html'') \<and>
        titles (nodes (updateTDK ?P example_tables ''out/cf/block/ip.html'' ?D)) = titles (nodes ?D)"
    by blast
  have "split_path ''out/cf/block/ip/index.html'' =
          [''out''] @ ''cf'' # ''block'' # ''ip'' # ''index.html'' # [] \<and> ''cf'' \<notin> set [''out'']"
    by simp
  with type_key_is_raw_segment [of "''out/cf/block/ip/index.html''" example_tables ?P ?D]
  have r2: "path_key ''out/cf/block/ip/index.html'' = Some (''block'', ''ip'')"
    by blast
  have he: "has_entry example_tables ''block'' ''ip''"
    by (simp add: has_entry_def example_tables_def)
  have "suffix ''.html'' ''out/cf/block/ip/index.html''"
    by (rule suffixI [of _ "''out/cf/block/ip/index''"]) simp
  with type_key_is_raw_segment [of "''out/cf/block/ip/index.html''" example_tables ?P ?D]
    example_tables_keys r2 he
  have r3: "\<exists>pre post. split_path ''out/cf/block/ip/index.html'' =
              pre @ ''cf'' # ''block'' # ''ip'' # post \<and> ''cf'' \<notin> set pre \<and> post \<noteq> []"
    by blast
  from r1 r2 r3 he show ?thesis
    by (simp add: nodes_def)
qed

section \<open>Platform meta tags: proofs\<close>

lemma startsWith_iff: "startsWith s t \<longleftrightarrow> (\<exists>b. s = t @ b)"
  by (induction s t rule: startsWith.induct) auto

lemma str_includes_iff: "str_includes s t \<longleftrightarrow> (\<exists>a b. s = a @ t @ b)"
proof (induction s)
  case Nil
  then show ?case by auto
next
  case (Cons x xs)
  show ?case
  proof
    assume "str_includes (x # xs) t"
    then consider "startsWith (x # xs) t" | "str_includes xs t"
      by auto
    then show "\<exists>a b. x # xs = a @ t @ b"
    proof cases
      case 1
      then obtain b where "x # xs = t @ b"
        by (auto simp: startsWith_iff)
      then have "x # xs = [] @ t @ b" by simp
      then show ?thesis by blast
    next
      case 2
      with Cons.IH obtain a b where "xs = a @ t @ b" by blast
      then have "x # xs = (x # a) @ t @ b" by simp
      then show ?thesis by blast
    qed
  next
    assume "\<exists>a b. x # xs = a @ t @ b"
    then obtain a b where ab: "x # xs = a @ t @ b" by blast
    show "str_includes (x # xs) t"
    proof (cases a)
      case Nil
      with ab have "startsWith (x # xs) t"
        by (auto simp: startsWith_iff)
      then show ?thesis by simp
    next
      case (Cons y ys)
      with ab have "xs = ys @ t @ b" by simp
      with Cons.IH have "str_includes xs t" by blast
      then show ?thesis by simp
    qed
  qed
qed

lemma split_path_head: "split_path p = a # rest \<Longrightarrow> \<exists>r. p = a @ r"
proof (induction p arbitrary: a rest)
  case Nil
  then show ?case by simp
next
  case (Cons c cs)
  then show ?case
    by (cases "split_path cs") (auto split: if_splits)
qed

lemma split_path_second:
  "split_path p = a # b # rest \<Longrightarrow> \<exists>q. p = a @ ''/'' @ q \<and> split_path q = b # rest"
proof (induction p arbitrary: a)
  case Nil
  then show ?case by simp
next
  case (Cons c cs)
  show ?case
  proof (cases "c = CHR ''/''")
    case True
    with Cons.prems show ?thesis by auto
  next
    case False
    with Cons.prems obtain x where x: "split_path cs = x # b # rest" and a: "a = c # x"
      by (cases "split_path cs") auto
    from Cons.IH [OF x] obtain q where "cs = x @ ''/'' @ q" "split_path q = b # rest"
      by blast
    with a show ?thesis by auto
  qed
qed

lemma split_path_later:
  "split_path p = pre @ xs \<Longrightarrow> pre \<noteq> [] \<Longrightarrow> xs \<noteq> [] \<Longrightarrow>
   \<exists>p1 q. p = p1 @ ''/'' @ q \<and> split_path q = xs"
proof (induction pre arbitrary: p)
  case Nil
  then show ?case by simp
next
  case (Cons a pre)
  show ?case
  proof (cases pre)
    case Nil
    from Cons.prems(3) obtain b rest where "xs = b # rest"
      by (cases xs) auto
    with Cons.prems(1) Nil have "split_path p = a # b # rest" by simp
    from split_path_second [OF this] \<open>xs = b # rest\<close> show ?thesis by blast
  next
    case (Cons a' pre')
    with Cons.prems(1) have "split_path p = a # a' # (pre' @ xs)" by simp
    from split_path_second [OF this] obtain q'
      where p: "p = a @ ''/'' @ q'" and q': "split_path q' = pre @ xs"
      using Cons by auto
    from Cons.IH [OF q' _ Cons.prems(3)] Cons obtain p1 q
      where "q' = p1 @ ''/'' @ q" "split_path q = xs"
      by auto
    with p have "p = (a @ ''/'' @ p1) @ ''/'' @ q \<and> split_path q = xs" by simp
    then show ?thesis by blast
  qed
qed

text \<open>
  A path with the piece \<^verbatim>\<open>out\<close> directly followed by the piece \<^verbatim>\<open>cf\<close> passes the
  test \<^verbatim>\<open>filePath.includes("out/cf")\<close>.
\<close>

lemma under_out_cf_includes:
  assumes "split_path filePath = pre @ ''out'' # ''cf'' # post"
  shows "str_includes filePath ''out/cf''"
proof -
  have start: "\<exists>r. q = ''out/cf'' @ r" if "split_path q = ''out'' # ''cf'' # post" for q
  proof -
    from split_path_second [OF that] obtain q2
      where q: "q = ''out'' @ ''/'' @ q2" and q2: "split_path q2 = ''cf'' # post"
      by blast
    from split_path_head [OF q2] obtain r where "q2 = ''cf'' @ r" by blast
    with q show ?thesis by simp
  qed
  show ?thesis
  proof (cases pre)
    case Nil
    with assms start obtain r where "filePath = [] @ ''out/cf'' @ r" by auto
    then show ?thesis unfolding str_includes_iff by blast
  next
    case (Cons a pre')
    with assms have "\<exists>p1 q. filePath = p1 @ ''/'' @ q \<and> split_path q = ''out'' # ''cf'' # post"
      by (intro split_path_later [of filePath pre]) auto
    then obtain p1 q where f: "filePath = p1 @ ''/'' @ q"
      and "split_path q = ''out'' # ''cf'' # post"
      by blast
    with start obtain r where "q = ''out/cf'' @ r" by blast
    with f have "filePath = (p1 @ ''/'') @ ''out/cf'' @ r" by simp
    then show ?thesis unfolding str_includes_iff by blast
  qed
qed

lemma remove_scripts_append:
  "remove_scripts (xs @ ys) = remove_scripts xs @ remove_scripts ys"
  by (induction xs rule: remove_scripts.induct) auto

lemma remove_scripts_platform_nodes:
  "remove_scripts (platform_nodes buildDate version) = platform_nodes buildDate version"
  by (simp add: platform_nodes_def meta_tag_def)

text \<open>
  The version is the manifest's version field when the manifest can be read and parsed
  and has a non-empty version, and \<^verbatim>\<open>unknown\<close> in every other case; the function
  returns a document in each case.
\<close>

lemma manifest_version_cases:
  "manifest_version Unreadable = ''unknown'' \<and>
   manifest_version Unparsable = ''unknown'' \<and>
   manifest_version (Parsed None) = ''unknown'' \<and>
   manifest_version (Parsed (Some [])) = ''unknown'' \<and>
   (v \<noteq> [] \<longrightarrow> manifest_version (Parsed (Some v)) = v)"
  by (simp add: manifest_version_def)

text \<open>
  When the test on the path succeeds (and the build date and version have no character
  special to attribute markup), the head after the transform starts with the five tags
  in the order client-ip, ray-id, location-code, build-date, version, set off by the
  white space of the template.
\<close>

lemma platform_tags_prepended:
  assumes "str_includes filePath ''out/cf''"
    and "attr_safe (now e filePath)" and "attr_safe (manifest_version (package_json e))"
  shows "\<exists>rest. head (fst (transform e filePath d)) =
           platform_nodes (now e filePath) (manifest_version (package_json e)) @ rest"
  using assms
  by (simp add: transform_def addCloudflareMetaTags_def moveScriptsToBodyBottom_def Let_def
        remove_scripts_append remove_scripts_platform_nodes)

text \<open>
  The only line the edits print is the warning about the manifest, and only for a path
  that passes the test; the edits return a document in every case.
\<close>

lemma transform_printed:
  "snd (transform e filePath d) =
     (if str_includes filePath ''out/cf'' then manifest_warning (package_json e) else [])"
  by (simp add: transform_def addCloudflareMetaTags_def Let_def)

text \<open>
  The relocation of scripts is the last edit, so after the whole transform the head of
  every document is free of script elements.
\<close>

lemma transform_head_without_scripts: "scripts (head (fst (transform e filePath d))) = []"
  by (simp add: transform_def Let_def split_beta moveScriptsToBodyBottom_def
        scripts_remove_scripts)

lemma platform_nodes_order:
  "map (\<lambda>n. (attr n ''name'', attr n ''content''))
     (select (\<lambda>n. True) (platform_nodes buildDate version)) =
   [(Some ''client-ip'', Some ''::CLIENT_IP::''), (Some ''ray-id'', Some ''::RAY_ID::''),
    (Some ''location-code'', Some ''::GEO::''), (Some ''build-date'', Some buildDate),
    (Some ''version'', Some version)]"
  by (simp add: platform_nodes_def meta_tag_def)

lemma not_triggered_no_tags:
  "\<not> str_includes filePath ''out/cf'' \<Longrightarrow>
   transform e filePath d =
     (moveScriptsToBodyBottom
        (updateTDK (parse_fragment e) (tables e) filePath (normalizePreloads d)), [])"
  by (simp add: transform_def)

text \<open>
  Claim C4.  The comment in \<^verbatim>\<open>processHtmlFile\<close> restricts the platform tags to the
  HTML files below the directory \<^verbatim>\<open>out/cf/\<close>, and the claim says the same with path
  pieces.  The code tests whether the text \<^verbatim>\<open>out/cf\<close> occurs in the path.  The file
  \<^verbatim>\<open>out/cfg/index.html\<close> has the pieces \<^verbatim>\<open>out\<close>, \<^verbatim>\<open>cfg\<close>, \<^verbatim>\<open>index.html\<close>, so
  the piece \<^verbatim>\<open>cf\<close> does not occur in it at all; it passes the test all the same, and
  its head receives the five platform tags.
\<close>

theorem platform_tags_substring_trigger:
  "split_path ''out/cfg/index.html'' = [''out'', ''cfg'', ''index.html''] \<and>
   str_includes ''out/cfg/index.html'' ''out/cf'' \<and>
   head (fst (transform example_env ''out/cfg/index.html''
     \<lparr>head = [Element ''title'' [] [Text ''Config'']], body = []\<rparr>)) =
     platform_nodes ''2025-01-01T00:00:00.000Z'' ''1.2.3'' @
     [Element ''title'' [] [Text ''Config'']]"
  by (simp add: transform_def example_env_def normalizePreloads_def updateTDK_def path_key_def
        addCloudflareMetaTags_def manifest_version_def attr_safe_def platform_nodes_def
        meta_tag_def moveScriptsToBodyBottom_def is_preload_link_def Let_def)

section \<open>The run: proofs\<close>

lemma processHtmlFile_step:
  "processHtmlFile e p w =
     w\<lparr>files := (files w)(p := file_after e p (files w p)),
       console := console w @ lines_for e p (files w p)\<rparr>"
proof (cases "files w p")
  case None
  then have "(files w)(p := None) = files w"
    by (intro ext) simp
  with None show ?thesis
    by (simp add: processHtmlFile_def readFileSync_def file_after_def line_for_def
          lines_for_def warning_for_def)
next
  case (Some f)
  then have same: "(files w)(p \<mapsto> f) = files w"
    by (intro ext) simp
  show ?thesis
  proof (cases "processed e p f")
    case None
    with Some same show ?thesis
      by (auto simp: processHtmlFile_def readFileSync_def writeFileSync_def file_after_def
            line_for_def lines_for_def warning_for_def processed_def transform_printed
            split_beta split: option.splits if_splits)
  next
    case (Some out)
    with \<open>files w p = Some f\<close> show ?thesis
      by (auto simp: processHtmlFile_def readFileSync_def writeFileSync_def file_after_def
            line_for_def lines_for_def warning_for_def processed_def transform_printed
            split_beta split: option.splits if_splits)
  qed
qed

lemma process_all_Cons:
  "process_all e (p # ps) w = process_all e ps (processHtmlFile e p w)"
  by (simp add: process_all_def)

lemma process_all_result:
  "distinct htmlFiles \<Longrightarrow>
   files (process_all e htmlFiles w) =
     (\<lambda>p. if p \<in> set htmlFiles then file_after e p (files w p) else files w p) \<and>
   console (process_all e htmlFiles w) =
     console w @ concat (map (\<lambda>p. lines_for e p (files w p)) htmlFiles) \<and>
   out_dir (process_all e htmlFiles w) = out_dir w"
proof (induction htmlFiles arbitrary: w)
  case Nil
  then show ?case by (simp add: process_all_def)
next
  case (Cons p ps)
  let ?w1 = "processHtmlFile e p w"
  from Cons.prems have d: "distinct ps" and np: "p \<notin> set ps" by simp_all
  have f1: "files ?w1 = (files w)(p := file_after e p (files w p))"
    and c1: "console ?w1 = console w @ lines_for e p (files w p)"
    and o1: "out_dir ?w1 = out_dir w"
    by (simp_all add: processHtmlFile_step)
  from np have same:
    "map (\<lambda>q. lines_for e q (if q = p then file_after e p (files w p) else files w q)) ps =
     map (\<lambda>q. lines_for e q (files w q)) ps"
    by (intro map_cong) auto
  from Cons.IH [OF d, of ?w1] np show ?case
    by (auto simp: process_all_Cons f1 c1 o1 same intro!: ext)
qed

subsection \<open>The walk returns every path once\<close>

lemma path_join_plain: "plain_dir dp \<Longrightarrow> path_join dp n = dp @ ''/'' @ n"
  by (simp add: path_join_def plain_dir_def)

lemma plain_dir_join: "plain_dir dp \<Longrightarrow> plain_dir (dp @ ''/'' @ n)"
  by (cases dp; cases "tl dp") (auto simp: plain_dir_def)

lemma found_shape:
  "plain_dir dp \<Longrightarrow> getAllHtmlFiles dp items = Some fs \<Longrightarrow> p \<in> set fs \<Longrightarrow>
   \<exists>n r. n \<in> entry_name ` set items \<and> p = dp @ ''/'' @ n @ r \<and> (r = [] \<or> (\<exists>r'. r = CHR ''/'' # r'))"
proof (induction dp items arbitrary: fs rule: getAllHtmlFiles.induct)
  case (1 dirPath)
  then show ?case by simp
next
  case (2 dirPath item items)
  from "2.prems"(2) obtain rest where rest: "getAllHtmlFiles dirPath items = Some rest"
    and fs: "fs = (if extname (path_join dirPath item) = ''.html''
                 then [path_join dirPath item] else []) @ rest"
    by (auto split: option.splits)
  from "2.prems"(3) fs consider "p = path_join dirPath item" | "p \<in> set rest"
    by (auto split: if_splits)
  then show ?case
  proof cases
    case 1
    with "2.prems"(1) have "p = dirPath @ ''/'' @ item @ []"
      by (simp add: path_join_plain)
    then show ?thesis by (intro exI [of _ item] exI [of _ "[]"]) simp
  next
    case 2
    from "2.IH" [OF "2.prems"(1) rest 2] show ?thesis by auto
  qed
next
  case (3 dirPath item sub items)
  from "3.prems"(2) obtain found rest
    where found: "getAllHtmlFiles (path_join dirPath item) sub = Some found"
      and rest: "getAllHtmlFiles dirPath items = Some rest" and fs: "fs = found @ rest"
    by (auto split: option.splits)
  have pj: "path_join dirPath item = dirPath @ ''/'' @ item"
    using "3.prems"(1) by (rule path_join_plain)
  from "3.prems"(3) fs consider "p \<in> set found" | "p \<in> set rest"
    by auto
  then show ?case
  proof cases
    case 1
    have "plain_dir (path_join dirPath item)"
      unfolding pj using "3.prems"(1) by (rule plain_dir_join)
    from "3.IH"(1) [OF this found 1] obtain n r
      where "p = path_join dirPath item @ ''/'' @ n @ r"
      by blast
    then have "p = dirPath @ ''/'' @ item @ (CHR ''/'' # n @ r)"
      by (simp add: pj)
    then show ?thesis
      by (intro exI [of _ item] exI [of _ "CHR ''/'' # n @ r"]) simp
  next
    case 2
    from "3.IH"(2) [OF found "3.prems"(1) rest 2] show ?thesis by auto
  qed
next
  case (4 dirPath item items)
  then show ?case by simp
qed

lemma no_slash_split:
  assumes "CHR ''/'' \<notin> set a" and "CHR ''/'' \<notin> set b" and "a @ CHR ''/'' # x = b @ CHR ''/'' # y"
  shows "a = b"
proof -
  have "takeWhile (\<lambda>c. c \<noteq> CHR ''/'') (a @ CHR ''/'' # x) = a"
    using assms(1) by (subst takeWhile_append2) auto
  moreover have "takeWhile (\<lambda>c. c \<noteq> CHR ''/'') (b @ CHR ''/'' # y) = b"
    using assms(2) by (subst takeWhile_append2) auto
  ultimately show ?thesis using assms(3) by simp
qed

lemma names_apart:
  assumes "CHR ''/'' \<notin> set a" and "CHR ''/'' \<notin> set b" and "a \<noteq> b"
    and "r = [] \<or> (\<exists>r'. r = CHR ''/'' # r')" and "s = [] \<or> (\<exists>s'. s = CHR ''/'' # s')"
  shows "a @ r \<noteq> b @ s"
proof
  assume eq: "a @ r = b @ s"
  from assms(4,5) consider "r = []" "s = []" | r' where "r = CHR ''/'' # r'" "s = []"
    | s' where "r = []" "s = CHR ''/'' # s'" | r' s' where "r = CHR ''/'' # r'" "s = CHR ''/'' # s'"
    by blast
  then show False
  proof cases
    case 1
    with eq assms(3) show False by simp
  next
    case 2
    with eq have "CHR ''/'' \<in> set b" by (metis append_Nil2 in_set_conv_decomp)
    with assms(2) show False by simp
  next
    case 3
    with eq have "CHR ''/'' \<in> set a" by (metis append_Nil2 in_set_conv_decomp)
    with assms(1) show False by simp
  next
    case 4
    with eq assms(1,2) have "a = b" by (intro no_slash_split [of a b r' s']) simp_all
    with assms(3) show False by simp
  qed
qed

lemma listing_names_no_slash:
  "listing_ok items \<Longrightarrow> n \<in> entry_name ` set items \<Longrightarrow> CHR ''/'' \<notin> set n"
  by (induction items rule: listing_ok.induct) auto

lemma found_distinct:
  "plain_dir dp \<Longrightarrow> listing_ok items \<Longrightarrow> getAllHtmlFiles dp items = Some fs \<Longrightarrow> distinct fs"
proof (induction dp items arbitrary: fs rule: getAllHtmlFiles.induct)
  case (1 dirPath)
  then show ?case by simp
next
  case (2 dirPath item items)
  from "2.prems"(3) obtain rest where rest: "getAllHtmlFiles dirPath items = Some rest"
    and fs: "fs = (if extname (path_join dirPath item) = ''.html''
                 then [path_join dirPath item] else []) @ rest"
    by (auto split: option.splits)
  from "2.prems"(2) have ok: "listing_ok items" and ns: "CHR ''/'' \<notin> set item"
    and fresh: "item \<notin> entry_name ` set items"
    by simp_all
  have d: "distinct rest"
    using "2.prems"(1) ok rest by (rule "2.IH")
  have "path_join dirPath item \<notin> set rest"
  proof
    assume "path_join dirPath item \<in> set rest"
    from found_shape [OF "2.prems"(1) rest this] obtain n r
      where n: "n \<in> entry_name ` set items"
        and eq: "path_join dirPath item = dirPath @ ''/'' @ n @ r"
        and r: "r = [] \<or> (\<exists>r'. r = CHR ''/'' # r')"
      by blast
    from ok n have nn: "CHR ''/'' \<notin> set n"
      by (rule listing_names_no_slash)
    from eq have "item @ [] = n @ r"
      by (simp add: path_join_plain [OF "2.prems"(1)])
    moreover from n fresh have "item \<noteq> n" by auto
    ultimately show False
      using names_apart [OF ns nn _ _ r, of "[]"] by auto
  qed
  with d fs show ?case by simp
next
  case (3 dirPath item sub items)
  from "3.prems"(3) obtain found rest
    where found: "getAllHtmlFiles (path_join dirPath item) sub = Some found"
      and rest: "getAllHtmlFiles dirPath items = Some rest" and fs: "fs = found @ rest"
    by (auto split: option.splits)
  from "3.prems"(2) have ok: "listing_ok items" and oks: "listing_ok sub"
    and ns: "CHR ''/'' \<notin> set item" and fresh: "item \<notin> entry_name ` set items"
    by simp_all
  have pj: "path_join dirPath item = dirPath @ ''/'' @ item"
    using "3.prems"(1) by (rule path_join_plain)
  have pl: "plain_dir (path_join dirPath item)"
    unfolding pj using "3.prems"(1) by (rule plain_dir_join)
  have d1: "distinct found"
    using pl oks found by (rule "3.IH"(1))
  have d2: "distinct rest"
    using found "3.prems"(1) ok rest by (rule "3.IH"(2))
  have "set found \<inter> set rest = {}"
  proof (rule ccontr)
    assume "set found \<inter> set rest \<noteq> {}"
    then obtain p where p1: "p \<in> set found" and p2: "p \<in> set rest" by auto
    from found_shape [OF pl found p1] obtain n1 r1
      where "p = path_join dirPath item @ ''/'' @ n1 @ r1"
      by blast
    then have e1: "p = dirPath @ ''/'' @ item @ (CHR ''/'' # n1 @ r1)"
      by (simp add: pj)
    from found_shape [OF "3.prems"(1) rest p2] obtain n r
      where n: "n \<in> entry_name ` set items" and e2: "p = dirPath @ ''/'' @ n @ r"
        and r: "r = [] \<or> (\<exists>r'. r = CHR ''/'' # r')"
      by blast
    from ok n have nn: "CHR ''/'' \<notin> set n"
      by (rule listing_names_no_slash)
    from n fresh have "item \<noteq> n" by auto
    from names_apart [OF ns nn this _ r, of "CHR ''/'' # n1 @ r1"] e1 e2
    show False by simp
  qed
  with d1 d2 fs show ?case by simp
next
  case (4 dirPath item items)
  then show ?case by simp
qed


lemma getAllHtmlFiles_cong:
  "(\<And>n. path_join dp n = path_join dp' n) \<Longrightarrow>
   getAllHtmlFiles dp items = getAllHtmlFiles dp' items"
proof (induction dp items arbitrary: dp' rule: getAllHtmlFiles.induct)
  case (1 dirPath)
  then show ?case by simp
next
  case (2 dirPath item items)
  have "getAllHtmlFiles dirPath items = getAllHtmlFiles dp' items"
    using "2.prems" by (rule "2.IH")
  moreover have "path_join dirPath item = path_join dp' item"
    by (rule "2.prems")
  ultimately show ?case
    by (simp only: getAllHtmlFiles.simps)
next
  case (3 dirPath item sub items)
  have same: "path_join dirPath item = path_join dp' item"
    by (rule "3.prems")
  have "getAllHtmlFiles (path_join dirPath item) sub = getAllHtmlFiles (path_join dp' item) sub"
    by (rule "3.IH"(1)) (simp add: same)
  moreover have "getAllHtmlFiles dirPath items = getAllHtmlFiles dp' items"
    if "getAllHtmlFiles (path_join dirPath item) sub = Some found" for found
    using that "3.prems" by (rule "3.IH"(2))
  ultimately show ?case
    by (simp split: option.splits)
next
  case (4 dirPath item items)
  then show ?case by simp
qed

lemma walk_distinct:
  assumes "listing_ok items" and "getAllHtmlFiles ''./out'' items = Some htmlFiles"
  shows "distinct htmlFiles"
proof -
  have "getAllHtmlFiles ''./out'' items = getAllHtmlFiles ''out'' items"
    by (rule getAllHtmlFiles_cong) (simp add: path_join_def)
  with assms(2) have "getAllHtmlFiles ''out'' items = Some htmlFiles" by simp
  moreover have "plain_dir ''out''"
    by (simp add: plain_dir_def)
  ultimately show ?thesis
    using assms(1) by (intro found_distinct [of "''out''" items])
qed

text \<open>
  Claim C7.  Take a run in which \<^verbatim>\<open>./out\<close> exists, its listing is as
  \<^verbatim>\<open>readdirSync\<close> gives it (\<open>listing_ok\<close>), and the walk returns the list of HTML
  files.  Then
  \<^item> the run prints the lines of each file in turn (the last of them says whether the
    file was processed or failed, with its path) and ends with the closing line: it is
    never cut short by a file;
  \<^item> a file that cannot be read, loaded or written is left as it was and has its path
    printed as an error;
  \<^item> every other file is overwritten with the printed transform of its own former
    contents and reported as processed, whatever happened to the files before it;
  \<^item> paths outside the list are untouched.
  What is written and printed for a file depends on that file, its path and the
  environment alone (\<open>processed\<close>, \<open>lines_for\<close>).
\<close>

theorem main_isolates_failures:
  assumes "out_dir w = Some items" and "getAllHtmlFiles ''./out'' items = Some htmlFiles"
    and "listing_ok items"
  shows "console (main e w) =
           console w @ concat (map (\<lambda>p. lines_for e p (files w p)) htmlFiles) @ [AllProcessed] \<and>
         files (main e w) =
           (\<lambda>p. if p \<in> set htmlFiles then file_after e p (files w p) else files w p) \<and>
         (\<forall>p. p \<in> set htmlFiles \<and> files w p = None \<longrightarrow>
              files (main e w) p = None \<and> ErrorProcessing p \<in> set (console (main e w))) \<and>
         (\<forall>p f. p \<in> set htmlFiles \<and> files w p = Some f \<and> processed e p f = None \<longrightarrow>
              files (main e w) p = Some f \<and> ErrorProcessing p \<in> set (console (main e w))) \<and>
         (\<forall>p f out. p \<in> set htmlFiles \<and> files w p = Some f \<and> processed e p f = Some out \<longrightarrow>
              files (main e w) p = Some (f\<lparr>contents := out\<rparr>) \<and>
              Processed p \<in> set (console (main e w)))"
proof -
  let ?w' = "process_all e htmlFiles w"
  have "distinct htmlFiles"
    using assms(3,2) by (rule walk_distinct)
  from process_all_result [OF this, of e w]
  have f: "files ?w' = (\<lambda>p. if p \<in> set htmlFiles then file_after e p (files w p) else files w p)"
    and c: "console ?w' = console w @ concat (map (\<lambda>p. lines_for e p (files w p)) htmlFiles)"
    by simp_all
  have m: "main e w = ?w'\<lparr>console := console ?w' @ [AllProcessed]\<rparr>"
    using assms(1,2) by (simp add: main_def Let_def)
  have fm: "files (main e w) =
           (\<lambda>p. if p \<in> set htmlFiles then file_after e p (files w p) else files w p)"
    by (simp add: m f)
  have cm: "console (main e w) =
           console w @ concat (map (\<lambda>p. lines_for e p (files w p)) htmlFiles) @ [AllProcessed]"
    by (simp add: m c)
  have line: "line_for e p (files w p) \<in> set (console (main e w))" if "p \<in> set htmlFiles" for p
  proof -
    have "line_for e p (files w p) \<in> set (lines_for e p (files w p))"
      by (simp add: lines_for_def)
    with that show ?thesis
      unfolding cm by auto
  qed
  have a: "files (main e w) p = None \<and> ErrorProcessing p \<in> set (console (main e w))"
    if "p \<in> set htmlFiles" "files w p = None" for p
    using that line [of p] by (simp add: fm file_after_def line_for_def)
  have b: "files (main e w) p = Some f \<and> ErrorProcessing p \<in> set (console (main e w))"
    if "p \<in> set htmlFiles" "files w p = Some f" "processed e p f = None" for p f
    using that line [of p] by (simp add: fm file_after_def line_for_def)
  have g: "files (main e w) p = Some (f\<lparr>contents := out\<rparr>) \<and>
           Processed p \<in> set (console (main e w))"
    if "p \<in> set htmlFiles" "files w p = Some f" "processed e p f = Some out" for p f out
    using that line [of p] by (simp add: fm file_after_def line_for_def)
  from cm fm a b g show ?thesis by blast
qed

lemma example_world_files:
  "getAllHtmlFiles ''./out''
     [FileEntry ''bad.html'', FileEntry ''empty.html'',
      DirEntry ''cf'' [DirEntry ''block'' [DirEntry ''ip'' [FileEntry ''index.html'']]],
      FileEntry ''locked.html'', FileEntry ''notes.txt'', FileEntry ''z.html''] =
   Some [''out/bad.html'', ''out/empty.html'', ''out/cf/block/ip/index.html'',
         ''out/locked.html'', ''out/z.html'']"
  by (simp add: path_join_def extname_def)

theorem main_isolates_failures_witness:
  "console (main (example_env\<lparr>package_json := Unreadable\<rparr>) example_world) =
     [ErrorProcessing ''out/bad.html'', ErrorProcessing ''out/empty.html'',
      VersionWarning, Processed ''out/cf/block/ip/index.html'',
      ErrorProcessing ''out/locked.html'', Processed ''out/z.html'', AllProcessed] \<and>
   files (main (example_env\<lparr>package_json := Unreadable\<rparr>) example_world) ''out/bad.html'' =
     Some \<lparr>contents = ''secret'', readable = False, writable = True\<rparr> \<and>
   files (main (example_env\<lparr>package_json := Unreadable\<rparr>) example_world) ''out/locked.html'' =
     Some \<lparr>contents = ''fixed'', readable = True, writable = False\<rparr> \<and>
   files (main (example_env\<lparr>package_json := Unreadable\<rparr>) example_world)
       ''out/cf/block/ip/index.html'' =
     Some \<lparr>contents = example_render (nodes (fst (transform
                          (example_env\<lparr>package_json := Unreadable\<rparr>)
                          ''out/cf/block/ip/index.html''
                          \<lparr>head = [], body = [Text ''hello'']\<rparr>))),
           readable = True, writable = True\<rparr> \<and>
   files (main (example_env\<lparr>package_json := Unreadable\<rparr>) example_world) ''out/z.html'' =
     Some \<lparr>contents = ''world'', readable = True, writable = True\<rparr> \<and>
   files (main (example_env\<lparr>package_json := Unreadable\<rparr>) example_world) ''out/notes.txt'' =
     Some \<lparr>contents = ''note'', readable = True, writable = True\<rparr>"
proof -
  let ?E = "example_env\<lparr>package_json := Unreadable\<rparr>"
  let ?fs = "[''out/bad.html'', ''out/empty.html'', ''out/cf/block/ip/index.html'',
         ''out/locked.html'', ''out/z.html'']"
  have o: "out_dir example_world =
     Some [FileEntry ''bad.html'', FileEntry ''empty.html'',
      DirEntry ''cf'' [DirEntry ''block'' [DirEntry ''ip'' [FileEntry ''index.html'']]],
      FileEntry ''locked.html'', FileEntry ''notes.txt'', FileEntry ''z.html'']"
    by (simp add: example_world_def)
  have d: "listing_ok
     [FileEntry ''bad.html'', FileEntry ''empty.html'',
      DirEntry ''cf'' [DirEntry ''block'' [DirEntry ''ip'' [FileEntry ''index.html'']]],
      FileEntry ''locked.html'', FileEntry ''notes.txt'', FileEntry ''z.html'']"
    by simp
  from main_isolates_failures [OF o example_world_files d, of ?E]
  have c: "console (main ?E example_world) =
           console example_world @
           concat (map (\<lambda>p. lines_for ?E p (files example_world p)) ?fs) @ [AllProcessed]"
    and f: "files (main ?E example_world) =
           (\<lambda>p. if p \<in> set ?fs then file_after ?E p (files example_world p)
                else files example_world p)"
    by blast+
  have t: "fst (transform ?E ''out/z.html'' \<lparr>head = [], body = [Text ''world'']\<rparr>) =
           \<lparr>head = [], body = [Text ''world'']\<rparr>"
    by (simp add: transform_def normalizePreloads_def updateTDK_def path_key_def
          moveScriptsToBodyBottom_def Let_def)
  have l: "load example_env s = (if s = [] then None else Some \<lparr>head = [], body = [Text s]\<rparr>)"
    for s
    by (simp add: example_env_def)
  have r: "render example_env x = example_render (nodes x)" for x
    by (simp add: example_env_def)
  show ?thesis
    unfolding c f
    by (simp add: example_world_def lines_for_def warning_for_def line_for_def file_after_def
          processed_def l r t manifest_warning_def nodes_def)
qed

text \<open>
  The two ways in which \<^verbatim>\<open>main\<close> ends without processing a file: the directory
  \<^verbatim>\<open>./out\<close> does not exist, or the walk throws.
\<close>

lemma main_no_out_dir:
  "out_dir w = None \<Longrightarrow> main e w = w\<lparr>console := console w @ [NoOutDir]\<rparr>"
  by (simp add: main_def)

lemma main_walk_fails:
  "out_dir w = Some items \<Longrightarrow> getAllHtmlFiles ''./out'' items = None \<Longrightarrow>
   main e w = w\<lparr>console := console w @ [ErrorMain]\<rparr>"
  by (simp add: main_def)


end
